theory Spec2Isabelle
  imports Main "HOL-Library.AList"
begin

section \<open>JavaScript strings\<close>

text \<open>
  A JavaScript string is modelled as a HOL \<open>string\<close>: a list of characters with codes
  0..255 (the Latin-1 range of UTF-16 code units). The built-in string methods the
  program calls are written out below for that range.
\<close>

text \<open>The regular-expression class \<^verbatim>\<open>\d\<close>: the ten ASCII digits.\<close>

definition isDigit :: "char \<Rightarrow> bool" where
  "isDigit c = (c \<in> set ''0123456789'')"

text \<open>
  White space as \<^verbatim>\<open>String.prototype.trim\<close> and the class \<^verbatim>\<open>\s\<close> see it: tab, line feed,
  vertical tab, form feed, carriage return, space and no-break space.
\<close>

definition isSpace :: "char \<Rightarrow> bool" where
  "isSpace c = (of_char c \<in> {9, 10, 11, 12, 13, 32, 160 :: nat})"

definition trim :: "string \<Rightarrow> string" where
  "trim s = rev (dropWhile isSpace (rev (dropWhile isSpace s)))"

text \<open>
  \<^verbatim>\<open>toLowerCase\<close>: A..Z and the accented capitals 0xC0..0xDE (without the
  multiplication sign 0xD7) move up by 32; every other character stays.
\<close>

definition lowerChar :: "char \<Rightarrow> char" where
  "lowerChar c =
     (let n = (of_char c :: nat)
      in if (65 \<le> n \<and> n \<le> 90) \<or> (192 \<le> n \<and> n \<le> 222 \<and> n \<noteq> 215)
         then char_of (n + 32) else c)"

definition toLowerCase :: "string \<Rightarrow> string" where
  "toLowerCase s = map lowerChar s"

text \<open>
  \<^verbatim>\<open>toUpperCase\<close> of one character, as used on the first letter of a word: a..z and
  0xE0..0xFE (without the division sign 0xF7) move down by 32. The two characters of
  the range whose capital lies outside it (0xB5, 0xFF) and the sharp s are left as
  they are; the program applies the method to ASCII letters only.
\<close>

definition upperChar :: "char \<Rightarrow> char" where
  "upperChar c =
     (let n = (of_char c :: nat)
      in if (97 \<le> n \<and> n \<le> 122) \<or> (224 \<le> n \<and> n \<le> 254 \<and> n \<noteq> 247)
         then char_of (n - 32) else c)"

definition toUpperCase :: "string \<Rightarrow> string" where
  "toUpperCase s = map upperChar s"

text \<open>
  \<^verbatim>\<open>s.split(sep)\<close> for a separator that matches single characters: the pieces between
  the separators, empty pieces included.
\<close>

fun splitOn :: "(char \<Rightarrow> bool) \<Rightarrow> string \<Rightarrow> string list" where
  "splitOn P [] = [[]]"
| "splitOn P (c # cs) =
     (if P c then [] # splitOn P cs
      else (case splitOn P cs of [] \<Rightarrow> [[c]] | p # ps \<Rightarrow> (c # p) # ps))"

definition allDigits :: "string \<Rightarrow> bool" where
  "allDigits s = list_all isDigit s"

fun startsWith :: "string \<Rightarrow> string \<Rightarrow> bool" where
  "startsWith s [] = True"
| "startsWith [] (p # ps) = False"
| "startsWith (c # cs) (p # ps) = (c = p \<and> startsWith cs ps)"

text \<open>\<^verbatim>\<open>s.includes(sub)\<close> (the name is a keyword here): \<open>sub\<close> occurs in \<open>s\<close> as a contiguous block.\<close>

fun includes_str :: "string \<Rightarrow> string \<Rightarrow> bool" where
  "includes_str [] sub = (sub = [])"
| "includes_str (c # cs) sub = (startsWith (c # cs) sub \<or> includes_str cs sub)"

text \<open>\<^verbatim>\<open>s.padStart(n, '0')\<close>.\<close>

definition padStart :: "nat \<Rightarrow> char \<Rightarrow> string \<Rightarrow> string" where
  "padStart n c s = replicate (n - length s) c @ s"

text \<open>\<^verbatim>\<open>s.substring(a, b)\<close> for \<open>a \<le> b\<close>, the only way the program calls it.\<close>

definition substring :: "nat \<Rightarrow> nat \<Rightarrow> string \<Rightarrow> string" where
  "substring a b s = take (b - a) (drop a s)"

text \<open>\<^verbatim>\<open>s.replace(/\D/g, '')\<close>: drop everything that is not a digit.\<close>

definition stripNonDigits :: "string \<Rightarrow> string" where
  "stripNonDigits s = filter isDigit s"

text \<open>\<^verbatim>\<open>s.replace(/\s/g, '')\<close>.\<close>

definition stripSpaces :: "string \<Rightarrow> string" where
  "stripSpaces s = filter (\<lambda>c. \<not> isSpace c) s"

text \<open>Decimal digits of a natural number, and \<^verbatim>\<open>parseInt(s, 10)\<close> on a string of digits.\<close>

definition digitChar :: "nat \<Rightarrow> char" where
  "digitChar d = char_of (48 + d)"

fun showNat :: "nat \<Rightarrow> string" where
  "showNat n = (if n < 10 then [digitChar n] else showNat (n div 10) @ [digitChar (n mod 10)])"

definition digitVal :: "char \<Rightarrow> nat" where
  "digitVal c = of_char c - 48"

definition parseDigits :: "string \<Rightarrow> nat" where
  "parseDigits s = foldl (\<lambda>acc c. 10 * acc + digitVal c) 0 s"

section \<open>Admission post-processing (postProcessAdmission.ts)\<close>

subsection \<open>Gender, age, mobile number, Aadhaar number\<close>

text \<open>
  An optional string argument (\<^verbatim>\<open>string | undefined\<close>) is a \<open>string option\<close>; the test
  \<^verbatim>\<open>!x\<close> holds for \<open>None\<close> and for the empty string.
\<close>

definition falsy :: "string option \<Rightarrow> bool" where
  "falsy x = (case x of None \<Rightarrow> True | Some s \<Rightarrow> s = [])"

definition normalizeGender :: "string option \<Rightarrow> string" where
  "normalizeGender gender =
     (if falsy gender then ''other''
      else let normalized = trim (toLowerCase (the gender))
           in if includes_str normalized ''male'' \<and> \<not> includes_str normalized ''female'' then ''male''
              else if includes_str normalized ''female'' then ''female''
              else ''other'')"

definition normalizeMobileNumber :: "string option \<Rightarrow> string" where
  "normalizeMobileNumber mobile =
     (if falsy mobile then [] else substring 0 10 (stripNonDigits (the mobile)))"

definition normalizeAadhaarNumber :: "string option \<Rightarrow> string" where
  "normalizeAadhaarNumber aadhaar =
     (if falsy aadhaar then []
      else let cleaned = stripNonDigits (the aadhaar)
           in if length cleaned = 12
              then substring 0 4 cleaned @ '' '' @ substring 4 8 cleaned @ '' '' @ substring 8 12 cleaned
              else cleaned)"


datatype age_in = AgeNumber int | AgeString string | AgeUndefined

text \<open>
  \<^verbatim>\<open>normalizeAge\<close>. A numeric age is modelled as an integer and returned as it is;
  \<^verbatim>\<open>parseInt\<close> of the empty digit string is \<^verbatim>\<open>NaN\<close>, which gives 0.
\<close>

fun normalizeAge :: "age_in \<Rightarrow> int" where
  "normalizeAge (AgeNumber n) = n"
| "normalizeAge (AgeString s) =
     (let digits = stripNonDigits s in if digits = [] then 0 else int (parseDigits digits))"
| "normalizeAge AgeUndefined = 0"

subsection \<open>The clock\<close>

text \<open>
  \<^verbatim>\<open>new Date()\<close> is the environment. The program reads from it the date part of
  \<^verbatim>\<open>toISOString()\<close>, now and after \<^verbatim>\<open>setDate(getDate() + 1)\<close> and
  \<^verbatim>\<open>setDate(getDate() - 1)\<close>, the first five characters of \<^verbatim>\<open>toTimeString()\<close>, and
  the whole \<^verbatim>\<open>toISOString()\<close>. The clock record holds these readings; years are taken
  in 0..9999, where the ISO form has four digits.
\<close>

record ymd =
  ymdYear :: nat
  ymdMonth :: nat
  ymdDay :: nat

record clock =
  todayDate :: ymd
  tomorrowDate :: ymd
  yesterdayDate :: ymd
  clockHours :: nat
  clockMinutes :: nat
  nowISO :: string
  timestamp36 :: string
  random36 :: string

definition isoDate :: "ymd \<Rightarrow> string" where
  "isoDate d = padStart 4 CHR ''0'' (showNat (ymdYear d)) @ ''-'' @
               padStart 2 CHR ''0'' (showNat (ymdMonth d)) @ ''-'' @
               padStart 2 CHR ''0'' (showNat (ymdDay d))"

definition timeHM :: "clock \<Rightarrow> string" where
  "timeHM clk = padStart 2 CHR ''0'' (showNat (clockHours clk)) @ '':'' @
                padStart 2 CHR ''0'' (showNat (clockMinutes clk))"

text \<open>
  \<^verbatim>\<open>generatePatientId\<close>: \<^verbatim>\<open>Date.now().toString(36)\<close> and five characters of
  \<^verbatim>\<open>Math.random().toString(36)\<close> are readings of the environment too.
\<close>

definition generatePatientId :: "clock \<Rightarrow> string" where
  "generatePatientId clk = toUpperCase (''PAT-'' @ timestamp36 clk @ ''-'' @ random36 clk)"

subsection \<open>Dates\<close>

text \<open>The test \<^verbatim>\<open>/^\d{4}-\d{2}-\d{2}$/\<close>.\<close>

definition isIsoDate :: "string \<Rightarrow> bool" where
  "isIsoDate s =
     (length s = 10 \<and> allDigits (take 4 s) \<and> s ! 4 = CHR ''-'' \<and>
      allDigits (take 2 (drop 5 s)) \<and> s ! 7 = CHR ''-'' \<and> allDigits (drop 8 s))"

text \<open>The separator class \<^verbatim>\<open>[-/]\<close>.\<close>

definition isDateSep :: "char \<Rightarrow> bool" where
  "isDateSep c = (c = CHR ''-'' \<or> c = CHR ''/'')"

text \<open>
  The test \<^verbatim>\<open>/^\d{1,2}[-/]\d{1,2}[-/]\d{2,4}$/\<close>, read on the pieces that
  \<^verbatim>\<open>split(/[-/]/)\<close> gives: digits contain no separator, so the pattern matches exactly
  when there are three pieces of digits of these lengths.
\<close>

definition isDmyDate :: "string \<Rightarrow> bool" where
  "isDmyDate s =
     (case splitOn isDateSep s of
        [d, m, y] \<Rightarrow> allDigits d \<and> 1 \<le> length d \<and> length d \<le> 2 \<and>
                     allDigits m \<and> 1 \<le> length m \<and> length m \<le> 2 \<and>
                     allDigits y \<and> 2 \<le> length y \<and> length y \<le> 4
      | _ \<Rightarrow> False)"

definition normalizeDate :: "clock \<Rightarrow> string option \<Rightarrow> string" where
  "normalizeDate clk date =
     (if falsy date then isoDate (todayDate clk)
      else let dateStr = trim (the date)
           in if isIsoDate dateStr then dateStr
              else if isDmyDate dateStr then
                (let parts = splitOn isDateSep dateStr;
                     day = padStart 2 CHR ''0'' (parts ! 0);
                     month = padStart 2 CHR ''0'' (parts ! 1);
                     year = (if length (parts ! 2) = 2 then ''20'' @ parts ! 2 else parts ! 2)
                 in year @ ''-'' @ month @ ''-'' @ day)
              else if includes_str (toLowerCase dateStr) ''today'' then isoDate (todayDate clk)
              else if includes_str (toLowerCase dateStr) ''tomorrow'' then isoDate (tomorrowDate clk)
              else if includes_str (toLowerCase dateStr) ''yesterday'' then isoDate (yesterdayDate clk)
              else isoDate (todayDate clk))"

subsection \<open>Times\<close>

text \<open>The test \<^verbatim>\<open>/^\d{1,2}:\d{2}$/\<close>, read on the pieces that \<^verbatim>\<open>split(':')\<close> gives.\<close>

definition isColon :: "char \<Rightarrow> bool" where
  "isColon c = (c = CHR '':'')"

definition isHMM :: "string \<Rightarrow> bool" where
  "isHMM s =
     (case splitOn isColon s of
        [h, m] \<Rightarrow> allDigits h \<and> 1 \<le> length h \<and> length h \<le> 2 \<and> allDigits m \<and> length m = 2
      | _ \<Rightarrow> False)"

text \<open>
  \<^verbatim>\<open>timeStr.match(/^(\d{1,2}):(\d{2})\s*(am|pm)$/i)\<close>: the three groups, or \<open>None\<close>
  where the pattern does not match. One or two digits must be followed by the colon, two
  digits follow it, and what is left after the white space is the period.
\<close>

definition matchAmPm :: "string \<Rightarrow> (string \<times> string \<times> string) option" where
  "matchAmPm s =
     (let h = takeWhile isDigit s; afterH = dropWhile isDigit s
      in if 1 \<le> length h \<and> length h \<le> 2 \<and> startsWith afterH '':'' then
           (let afterColon = drop 1 afterH;
                m = take 2 afterColon;
                period = dropWhile isSpace (drop 2 afterColon)
            in if length m = 2 \<and> allDigits m \<and>
                  (toLowerCase period = ''am'' \<or> toLowerCase period = ''pm'')
               then Some (h, m, period) else None)
         else None)"

definition normalizeTime :: "clock \<Rightarrow> string option \<Rightarrow> string" where
  "normalizeTime clk time =
     (if falsy time then timeHM clk
      else let timeStr = trim (the time)
           in if isHMM timeStr then
                (let parts = splitOn isColon timeStr
                 in padStart 2 CHR ''0'' (parts ! 0) @ '':'' @ parts ! 1)
              else (case matchAmPm timeStr of
                  Some (h, minutes, p) \<Rightarrow>
                    (let hours = parseDigits h;
                         period = toLowerCase p;
                         hours' = (if period = ''pm'' \<and> hours \<noteq> 12 then hours + 12
                                   else if period = ''am'' \<and> hours = 12 then 0
                                   else hours)
                     in padStart 2 CHR ''0'' (showNat hours') @ '':'' @ minutes)
                | None \<Rightarrow>
                    if includes_str (toLowerCase timeStr) ''now'' \<or>
                       includes_str (toLowerCase timeStr) ''current''
                    then timeHM clk
                    else timeHM clk))"

subsection \<open>Validation and the main function\<close>

record RawAdmissionData =
  raw_name :: "string option"
  raw_age :: age_in
  raw_gender :: "string option"
  raw_mobile_no :: "string option"
  raw_admitted_under_doctor :: "string option"
  raw_attender_name :: "string option"
  raw_relation :: "string option"
  raw_attender_mobile_no :: "string option"
  raw_aadhaar_number :: "string option"
  raw_admission_date :: "string option"
  raw_admission_time :: "string option"
  raw_ward :: "string option"
  raw_bed_number :: "string option"
  raw_reason :: "string option"

record ProcessedAdmissionData =
  patient_id :: string
  name :: string
  age :: int
  gender :: string
  mobile_no :: string
  admitted_under_doctor :: string
  attender_name :: string
  relation :: string
  attender_mobile_no :: string
  aadhaar_number :: string
  admission_date :: string
  admission_time :: string
  ward :: string
  bed_number :: string
  reason :: string
  status :: string
  created_at :: string
  updated_at :: string

text \<open>\<^verbatim>\<open>x?.trim() || ''\<close>.\<close>

definition trimOrEmpty :: "string option \<Rightarrow> string" where
  "trimOrEmpty x = (case x of None \<Rightarrow> [] | Some s \<Rightarrow> trim s)"

text \<open>\<^verbatim>\<open>!s || s.trim().length === 0\<close>.\<close>

definition missing :: "string \<Rightarrow> bool" where
  "missing s = (s = [] \<or> length (trim s) = 0)"

record validation =
  isValid :: bool
  errors :: "string list"

definition validateProcessedData :: "ProcessedAdmissionData \<Rightarrow> validation" where
  "validateProcessedData data =
     (let errors =
        (if missing (name data) then [''Patient name is required''] else []) @
        (if age data < 0 \<or> age data > 120 then [''Age must be between 0 and 120''] else []) @
        (if length (mobile_no data) \<noteq> 10 then [''Mobile number must be 10 digits''] else []) @
        (if aadhaar_number data \<noteq> [] \<and> length (stripSpaces (aadhaar_number data)) \<noteq> 12
         then [''Aadhaar number must be 12 digits''] else []) @
        (if missing (admitted_under_doctor data) then [''Admitting doctor is required''] else []) @
        (if missing (ward data) then [''Ward is required''] else []) @
        (if missing (bed_number data) then [''Bed number is required''] else []) @
        (if missing (reason data) then [''Admission reason is required''] else [])
      in \<lparr>isValid = (length errors = 0), errors = errors\<rparr>)"

text \<open>
  \<^verbatim>\<open>postProcessAdmission\<close> returns the processed record; its one effect, the call of
  \<^verbatim>\<open>console.warn\<close> with the list of messages, is returned beside it as the list of
  warnings written.
\<close>

definition postProcessAdmission ::
  "clock \<Rightarrow> RawAdmissionData \<Rightarrow> ProcessedAdmissionData \<times> string list list" where
  "postProcessAdmission clk rawData =
     (let now = nowISO clk;
          processed = \<lparr>
            patient_id = generatePatientId clk,
            name = trimOrEmpty (raw_name rawData),
            age = normalizeAge (raw_age rawData),
            gender = normalizeGender (raw_gender rawData),
            mobile_no = normalizeMobileNumber (raw_mobile_no rawData),
            admitted_under_doctor = trimOrEmpty (raw_admitted_under_doctor rawData),
            attender_name = trimOrEmpty (raw_attender_name rawData),
            relation = trimOrEmpty (raw_relation rawData),
            attender_mobile_no = normalizeMobileNumber (raw_attender_mobile_no rawData),
            aadhaar_number = normalizeAadhaarNumber (raw_aadhaar_number rawData),
            admission_date = normalizeDate clk (raw_admission_date rawData),
            admission_time = normalizeTime clk (raw_admission_time rawData),
            ward = trimOrEmpty (raw_ward rawData),
            bed_number = trimOrEmpty (raw_bed_number rawData),
            reason = trimOrEmpty (raw_reason rawData),
            status = ''admitted'',
            created_at = now,
            updated_at = now\<rparr>;
          validation = validateProcessedData processed
      in (processed, if \<not> isValid validation then [errors validation] else []))"

section \<open>JavaScript values and the merge policy (Admission.tsx)\<close>

text \<open>
  The values a form object or a JSON response holds. An object is the list of its own
  properties in insertion order, with distinct keys; numbers are modelled as integers.
\<close>

datatype jsval =
    JUndefined
  | JNull
  | JBool bool
  | JNum int
  | JStr string
  | JArr "jsval list"
  | JObj "(string \<times> jsval) list"

type_synonym obj = "(string \<times> jsval) list"

definition showInt :: "int \<Rightarrow> string" where
  "showInt i = (if i < 0 then ''-'' @ showNat (nat (- i)) else showNat (nat i))"

fun joinWith :: "string \<Rightarrow> string list \<Rightarrow> string" where
  "joinWith sep [] = []"
| "joinWith sep [x] = x"
| "joinWith sep (x # y # ys) = x @ sep @ joinWith sep (y # ys)"

text \<open>
  String coercion, as the template literal \<^verbatim>\<open>`${v}`\<close> does it. An array is the join of
  its elements with commas, where \<^verbatim>\<open>null\<close> and \<^verbatim>\<open>undefined\<close> elements give the empty
  string; a plain object gives \<^verbatim>\<open>[object Object]\<close>.
\<close>

fun toStr :: "jsval \<Rightarrow> string" where
  "toStr JUndefined = ''undefined''"
| "toStr JNull = ''null''"
| "toStr (JBool b) = (if b then ''true'' else ''false'')"
| "toStr (JNum n) = showInt n"
| "toStr (JStr s) = s"
| "toStr (JArr vs) =
     joinWith '','' (map (\<lambda>v. if v = JUndefined \<or> v = JNull then [] else toStr v) vs)"
| "toStr (JObj ps) = ''[object Object]''"

text \<open>Truthiness, \<^verbatim>\<open>a || b\<close>, and reading a property (\<^verbatim>\<open>undefined\<close> where it is absent).\<close>

fun truthy :: "jsval \<Rightarrow> bool" where
  "truthy JUndefined = False"
| "truthy JNull = False"
| "truthy (JBool b) = b"
| "truthy (JNum n) = (n \<noteq> 0)"
| "truthy (JStr s) = (s \<noteq> [])"
| "truthy (JArr vs) = True"
| "truthy (JObj ps) = True"

definition jsOr :: "jsval \<Rightarrow> jsval \<Rightarrow> jsval" where
  "jsOr a b = (if truthy a then a else b)"

definition getProp :: "obj \<Rightarrow> string \<Rightarrow> jsval" where
  "getProp ob k = (case map_of ob k of None \<Rightarrow> JUndefined | Some v \<Rightarrow> v)"

text \<open>The test \<^verbatim>\<open>v!==undefined && v!==null && `${v}`.trim()!==""\<close>.\<close>

definition isPresent :: "jsval \<Rightarrow> bool" where
  "isPresent v = (v \<noteq> JUndefined \<and> v \<noteq> JNull \<and> trim (toStr v) \<noteq> [])"

text \<open>
  \<^verbatim>\<open>mergeIfPresent\<close>: \<open>out\<close> starts as a copy of \<open>base\<close>; the entries of \<open>patch\<close> are
  visited in order and each present value is assigned to its key. Assignment keeps the
  place of an existing key and appends a new one.
\<close>

definition mergeIfPresent :: "obj \<Rightarrow> obj \<Rightarrow> obj" where
  "mergeIfPresent base patch =
     fold (\<lambda>(k, v) out. if isPresent v then AList.update k v out else out) patch base"

subsection \<open>The admission page: mapping a transcript into the form\<close>

text \<open>
  \<^verbatim>\<open>postJSON\<close> either returns the parsed response or throws; what the server answers
  to a URL and a text is a parameter of the model.
\<close>

datatype 'a http_result = Throws string | Returns 'a

record admission_page =
  form :: obj
  txAdmission :: string
  isMapping :: bool
  error :: "string option"

definition emptyForm :: obj where
  "emptyForm =
     [(''name'', JStr []), (''age'', JStr []), (''gender'', JStr ''Male''),
      (''mobile_no'', JStr []), (''aadhaar_number'', JStr []),
      (''admission_date'', JStr []), (''admission_time'', JStr []), (''reason'', JStr [])]"

definition newline :: string where
  "newline = [char_of (10 :: nat)]"

definition uiSection :: "obj \<Rightarrow> string" where
  "uiSection f =
     ''Full Name: '' @ toStr (jsOr (getProp f ''name'') (JStr [])) @ newline @
     ''Age: '' @ toStr (jsOr (getProp f ''age'') (JStr ''Enter age'')) @ newline @
     ''Gender: '' @ toStr (jsOr (getProp f ''gender'') (JStr [])) @ newline @
     ''Mobile Number: '' @ toStr (jsOr (getProp f ''mobile_no'') (JStr [])) @ newline @
     ''Admission Date options: '' @
       toStr (jsOr (getProp f ''admission_date'') (JStr ''dd-mm-yyyy'')) @ '' / Today / Tomorrow'' @ newline @
     ''Admission Time options: '' @
       toStr (jsOr (getProp f ''admission_time'') (JStr ''--:--'')) @ '' / Now / 9:00 AM'' @ newline @
     ''Reason: '' @
       toStr (jsOr (getProp f ''reason'') (JStr ''Describe the reason for admission...''))"

definition combinedText :: "string \<Rightarrow> obj \<Rightarrow> string" where
  "combinedText text f =
     ''TRANSCRIPT'' @ newline @ text @ newline @ newline @ ''UI'' @ newline @ uiSection f"

text \<open>\<^verbatim>\<open>s[0].toUpperCase() + s.slice(1)\<close> on a non-empty string.\<close>

definition capitalize :: "string \<Rightarrow> string" where
  "capitalize s = (case s of [] \<Rightarrow> [] | c # cs \<Rightarrow> upperChar c # cs)"

text \<open>The object literal that \<^verbatim>\<open>mapAdmissionFromTranscript\<close> merges into the form.\<close>

definition admissionPatch :: "ProcessedAdmissionData \<Rightarrow> obj \<Rightarrow> obj" where
  "admissionPatch processed prev =
     [(''name'', JStr (name processed)),
      (''age'', if age processed \<noteq> 0 then JStr (showInt (age processed)) else getProp prev ''age''),
      (''gender'', if gender processed \<noteq> [] then JStr (capitalize (gender processed))
                   else getProp prev ''gender''),
      (''mobile_no'', JStr (mobile_no processed)),
      (''aadhaar_number'', JStr (aadhaar_number processed)),
      (''admission_date'', JStr (admission_date processed)),
      (''admission_time'', JStr (admission_time processed)),
      (''reason'', JStr (reason processed))]"

definition mapAdmissionFromTranscript ::
  "clock \<Rightarrow> (string \<Rightarrow> string \<Rightarrow> RawAdmissionData http_result) \<Rightarrow> admission_page \<Rightarrow> admission_page" where
  "mapAdmissionFromTranscript clk postJSON st =
     (let text = trim (txAdmission st)
      in if text = [] then st
         else (case postJSON ''/api/map/admission'' (combinedText text (form st)) of
             Returns raw \<Rightarrow>
               (let processed = fst (postProcessAdmission clk raw);
                    prev = form st
                in st\<lparr>form := mergeIfPresent prev (admissionPatch processed prev),
                      isMapping := False, error := None\<rparr>)
           | Throws msg \<Rightarrow>
               st\<lparr>isMapping := False,
                  error := Some (''Failed to map admission data: '' @ msg)\<rparr>))"

section \<open>Transcription (Recorder and SimpleRecorder)\<close>

record blob =
  blobSize :: nat
  blobType :: string

datatype js_error = JsError (errName: string) (errMessage: string)

record response =
  respStatus :: nat
  respBody :: string

definition ok :: "response \<Rightarrow> bool" where
  "ok r = (200 \<le> respStatus r \<and> respStatus r \<le> 299)"

datatype fetch_outcome = FetchRejects js_error | FetchResolves response

text \<open>
  What the component does to the outside: the request it issues and the callbacks it
  calls, in order.
\<close>

datatype event = Fetch string | OnTranscript string | OnTranscribe string

text \<open>
  The environment of the recorder: the \<^verbatim>\<open>enableTranscription\<close> property, the configured
  base URL, the built-in \<^verbatim>\<open>JSON.parse\<close> (\<open>None\<close> where it throws) and the answer of the
  network to a request.
\<close>

record recorder_env =
  enableTranscription :: bool
  apiBase :: string
  jsonParse :: "string \<Rightarrow> jsval option"
  fetch :: "string \<Rightarrow> fetch_outcome"

record recorder_state =
  isProcessing :: bool
  err :: "string option"
  processingTime :: nat
  localText :: string

definition safeJson :: "(string \<Rightarrow> jsval option) \<Rightarrow> response \<Rightarrow> jsval" where
  "safeJson parse res =
     (let t = respBody res
      in case parse t of Some v \<Rightarrow> v | None \<Rightarrow> JObj [(''text'', JStr []), (''_raw'', JStr t)])"

text \<open>
  The transcript taken from the parsed response: the string itself, or for an object
  \<^verbatim>\<open>result.text || result.transcript || result.result || ''\<close>; an array is an object
  without these properties.
\<close>

definition extractTranscript :: "jsval \<Rightarrow> jsval" where
  "extractTranscript result =
     (case result of
        JStr s \<Rightarrow> JStr s
      | JObj ps \<Rightarrow> jsOr (getProp ps ''text'')
                    (jsOr (getProp ps ''transcript'') (jsOr (getProp ps ''result'') (JStr [])))
      | JArr vs \<Rightarrow> JStr []
      | _ \<Rightarrow> JStr [])"

definition statusMessage :: "nat \<Rightarrow> string" where
  "statusMessage st =
     (if st = 500 then ''Backend error - check if ffmpeg is installed''
      else if st = 404 then ''Transcription service not found - check backend''
      else if st = 0 then ''Cannot connect to backend - is it running?''
      else ''Transcription failed ('' @ showNat st @ '')'')"

text \<open>
  The body of the \<^verbatim>\<open>try\<close> block of \<^verbatim>\<open>processAudio\<close>: the state and the events so far,
  and the error thrown, if any.
\<close>

definition processAudioTry ::
  "recorder_env \<Rightarrow> blob \<Rightarrow> recorder_state \<Rightarrow> recorder_state \<times> event list \<times> js_error option" where
  "processAudioTry env audioBlob st =
     (if blobSize audioBlob = 0 then
        (st, [], Some (JsError ''Error'' ''Audio blob is empty - no audio was recorded''))
      else if \<not> enableTranscription env then
        (let placeholderText = ''Audio recorded (transcription disabled)''
         in (st\<lparr>isProcessing := False, localText := placeholderText\<rparr>,
             [OnTranscript placeholderText, OnTranscribe placeholderText], None))
      else
        (let apiUrl = apiBase env @ ''/api/transcribe''
         in case fetch env apiUrl of
              FetchRejects e \<Rightarrow> (st, [Fetch apiUrl], Some e)
            | FetchResolves res \<Rightarrow>
                if \<not> ok res then
                  (st\<lparr>isProcessing := False, err := Some (statusMessage (respStatus res))\<rparr>,
                   [Fetch apiUrl], None)
                else
                  (let transcript = extractTranscript (safeJson (jsonParse env) res)
                   in case transcript of
                        JStr s \<Rightarrow>
                          if s \<noteq> [] \<and> trim s \<noteq> [] then
                            (st\<lparr>localText := trim s\<rparr>,
                             [Fetch apiUrl, OnTranscript (trim s), OnTranscribe (trim s)], None)
                          else
                            (st\<lparr>localText := ''No transcript received from server''\<rparr>,
                             [Fetch apiUrl, OnTranscript [], OnTranscribe []], None)
                      | v \<Rightarrow>
                          if truthy v then
                            (st, [Fetch apiUrl],
                             Some (JsError ''TypeError'' ''transcript.trim is not a function''))
                          else
                            (st\<lparr>localText := ''No transcript received from server''\<rparr>,
                             [Fetch apiUrl, OnTranscript [], OnTranscribe []], None))))"

text \<open>The \<^verbatim>\<open>catch\<close> block: the message shown, then both callbacks with the empty string.\<close>

definition processAudioCatch :: "js_error \<Rightarrow> recorder_state \<Rightarrow> recorder_state \<times> event list" where
  "processAudioCatch e st =
     (let errorMessage = (if errName e = ''AbortError''
                          then ''Transcription timed out. Please try again.''
                          else errMessage e);
          shown = (if errName e = ''AbortError'' then
                     ''Transcription timed out (120s). Please try recording again with clearer audio.''
                   else if includes_str (errMessage e) ''fetch'' then
                     ''Network error: Cannot connect to backend. Please check your connection and try again.''
                   else ''Transcription error: '' @ errorMessage @ ''. Please try speaking more clearly.'')
      in (st\<lparr>err := Some shown\<rparr>, [OnTranscript [], OnTranscribe []]))"

definition processAudio :: "recorder_env \<Rightarrow> blob \<Rightarrow> recorder_state \<Rightarrow> recorder_state \<times> event list" where
  "processAudio env audioBlob st =
     (let st1 = st\<lparr>isProcessing := True, err := None, processingTime := 0\<rparr>;
          (st2, evs, thrown) = processAudioTry env audioBlob st1;
          (st3, evs') = (case thrown of
                           None \<Rightarrow> (st2, evs)
                         | Some e \<Rightarrow> (let (s, es) = processAudioCatch e st2 in (s, evs @ es)))
      in (st3\<lparr>isProcessing := False, processingTime := 0\<rparr>, evs'))"

subsection \<open>SimpleRecorder: the handler of the recorder's stop event\<close>

record simple_state =
  simpleIsProcessing :: bool
  simpleTranscript :: string
  simpleError :: string

text \<open>
  \<^verbatim>\<open>new Blob(chunks)\<close> has the sizes of the chunks added up. \<^verbatim>\<open>response.json()\<close>
  rejects where the body does not parse; \<^verbatim>\<open>result.text || result\<close> throws on
  \<^verbatim>\<open>null\<close>, and \<^verbatim>\<open>trim\<close> exists on strings only.
\<close>

definition onstopTry ::
  "recorder_env \<Rightarrow> blob list \<Rightarrow> simple_state \<Rightarrow> simple_state \<times> event list \<times> js_error option" where
  "onstopTry env audioChunks st =
     (let audioBlob = \<lparr>blobSize = sum_list (map blobSize audioChunks), blobType = ''audio/webm''\<rparr>;
          url = ''http://localhost:8000/api/transcribe''
      in if blobSize audioBlob = 0 then (st, [], Some (JsError ''Error'' ''No audio recorded''))
         else (case fetch env url of
             FetchRejects e \<Rightarrow> (st, [Fetch url], Some e)
           | FetchResolves res \<Rightarrow>
               if \<not> ok res then
                 (st, [Fetch url],
                  Some (JsError ''Error'' (''API error: '' @ showNat (respStatus res) @ '' - '' @ respBody res)))
               else (case jsonParse env (respBody res) of
                   None \<Rightarrow> (st, [Fetch url], Some (JsError ''SyntaxError'' ''Unexpected token in JSON''))
                 | Some JNull \<Rightarrow>
                     (st, [Fetch url], Some (JsError ''TypeError'' ''Cannot read properties of null''))
                 | Some result \<Rightarrow>
                     (let transcribedText =
                            (case result of JObj ps \<Rightarrow> jsOr (getProp ps ''text'') result | _ \<Rightarrow> result)
                      in case transcribedText of
                           JStr s \<Rightarrow>
                             if s \<noteq> [] \<and> trim s \<noteq> [] then
                               (st\<lparr>simpleTranscript := s\<rparr>, [Fetch url, OnTranscript s], None)
                             else
                               (st\<lparr>simpleError := ''No transcript received from server''\<rparr>,
                                [Fetch url], None)
                         | v \<Rightarrow>
                             if truthy v then
                               (st, [Fetch url],
                                Some (JsError ''TypeError'' ''transcribedText.trim is not a function''))
                             else
                               (st\<lparr>simpleError := ''No transcript received from server''\<rparr>,
                                [Fetch url], None)))))"

definition onstop :: "recorder_env \<Rightarrow> blob list \<Rightarrow> simple_state \<Rightarrow> simple_state \<times> event list" where
  "onstop env audioChunks st =
     (let st1 = st\<lparr>simpleIsProcessing := True\<rparr>;
          (st2, evs, thrown) = onstopTry env audioChunks st1;
          st3 = (case thrown of None \<Rightarrow> st2 | Some e \<Rightarrow> st2\<lparr>simpleError := errMessage e\<rparr>)
      in (st3\<lparr>simpleIsProcessing := False\<rparr>, evs))"

section \<open>Regular expressions\<close>

text \<open>
  The patterns of the handover page, as far as they use the pattern language: literal
  text under the flag \<^verbatim>\<open>i\<close>, a character class, sequence, \<^verbatim>\<open>?\<close>, \<^verbatim>\<open>*\<close> and a capturing
  group.
\<close>

datatype re =
    Eps
  | Lit string
  | Cls "char \<Rightarrow> bool"
  | Seq re re
  | Opt re
  | Star re
  | Grp re

text \<open>
  A backtracking matcher. \<open>rmatch r s\<close> lists the ways \<open>r\<close> matches a prefix of \<open>s\<close>, the
  preferred way first, each with the text of the groups closed so far and the rest of
  the input. Quantifiers are greedy. An iteration of \<^verbatim>\<open>*\<close> that consumes nothing is not
  repeated, so the length of the input bounds the number of iterations.
\<close>

type_synonym rresult = "(string list \<times> string) list"

text \<open>
  Literal text under the flag \<^verbatim>\<open>i\<close>: the characters are compared after lowercasing, one
  after the other; the result is the rest of the input.
\<close>

fun matchLit :: "string \<Rightarrow> string \<Rightarrow> string option" where
  "matchLit [] s = Some s"
| "matchLit (p # ps) [] = None"
| "matchLit (p # ps) (c # cs) = (if lowerChar c = lowerChar p then matchLit ps cs else None)"

text \<open>Continue every match of a list with the matcher \<open>g\<close> on the rest it left.\<close>

fun thenMatch :: "(string \<Rightarrow> rresult) \<Rightarrow> rresult \<Rightarrow> rresult" where
  "thenMatch g [] = []"
| "thenMatch g ((c1, r1) # others) = map (\<lambda>(c2, r2). (c1 @ c2, r2)) (g r1) @ thenMatch g others"

fun starIter :: "(string \<Rightarrow> rresult) \<Rightarrow> nat \<Rightarrow> string \<Rightarrow> rresult" where
  "starIter f 0 s = [([], s)]"
| "starIter f (Suc n) s =
     thenMatch (starIter f n) (filter (\<lambda>(c1, r1). length r1 < length s) (f s)) @ [([], s)]"

primrec rmatch :: "re \<Rightarrow> string \<Rightarrow> rresult" where
  "rmatch Eps s = [([], s)]"
| "rmatch (Lit l) s = (case matchLit l s of None \<Rightarrow> [] | Some rest \<Rightarrow> [([], rest)])"
| "rmatch (Cls P) s = (case s of [] \<Rightarrow> [] | c # cs \<Rightarrow> if P c then [([], cs)] else [])"
| "rmatch (Seq a b) s = thenMatch (rmatch b) (rmatch a s)"
| "rmatch (Opt a) s = rmatch a s @ [([], s)]"
| "rmatch (Star a) s = starIter (rmatch a) (length s) s"
| "rmatch (Grp a) s = map (\<lambda>(c, r). (c @ [take (length s - length r) s], r)) (rmatch a s)"

text \<open>
  \<^verbatim>\<open>s.match(r)\<close> without the flag \<^verbatim>\<open>g\<close>: the leftmost position where the pattern
  matches, with the matched text and the groups; \<open>None\<close> for \<^verbatim>\<open>null\<close>.
\<close>

fun matchRe :: "re \<Rightarrow> string \<Rightarrow> (string \<times> string list) option" where
  "matchRe r [] = (case rmatch r [] of [] \<Rightarrow> None | (caps, rest) # _ \<Rightarrow> Some ([], caps))"
| "matchRe r (c # cs) =
     (case rmatch r (c # cs) of
        [] \<Rightarrow> matchRe r cs
      | (caps, rest) # _ \<Rightarrow> Some (take (length (c # cs) - length rest) (c # cs), caps))"

definition seqs :: "re list \<Rightarrow> re" where
  "seqs rs = foldr Seq rs Eps"

definition spaces :: re where
  "spaces = Star (Cls isSpace)"

definition digits :: re where
  "digits = Seq (Cls isDigit) (Star (Cls isDigit))"

definition notDots :: re where
  "notDots = Star (Cls (\<lambda>c. c \<noteq> CHR ''.''))"

section \<open>Nurse handover: mapping a transcript into the form\<close>

record vitals =
  bp :: string
  hr :: string
  temp :: string
  spo2 :: string

record HandoverData =
  outgoingNurse :: string
  currentPatientStatus :: string
  vitals :: vitals
  medsGiven :: string
  medsDue :: string
  pendingInvestigations :: string
  outgoingSignature :: string
  incomingNurse :: string
  verification :: string
  medications :: string
  investigations :: string
  acknowledgement :: string
  incomingSignature :: string
  inchargeVerification :: string
  inchargeMedications :: string
  inchargeAuditLog :: string
  inchargeSignature :: string
  summary :: string

definition initialData :: HandoverData where
  "initialData =
     \<lparr>outgoingNurse = [], currentPatientStatus = [],
      vitals = \<lparr>bp = [], hr = [], temp = [], spo2 = []\<rparr>,
      medsGiven = [], medsDue = [], pendingInvestigations = [], outgoingSignature = [],
      incomingNurse = [], verification = [], medications = [], investigations = [],
      acknowledgement = [], incomingSignature = [],
      inchargeVerification = [], inchargeMedications = [], inchargeAuditLog = [],
      inchargeSignature = [], summary = []\<rparr>"

datatype toast = ToastSuccess string | ToastError string

record handover_page =
  formData :: HandoverData
  txOutgoing :: string
  txIncoming :: string
  toasts :: "toast list"

text \<open>
  The responses of the two mapping endpoints: \<open>None\<close> for an empty (\<^verbatim>\<open>null\<close>) response,
  and in an object each property the handler reads, absent or of the type the handler
  uses it at.
\<close>

record outgoing_response =
  vital_signs :: "string option"
  patient_condition :: "string option"
  m_medications :: "string list option"
  pending_tasks :: "string list option"
  special_instructions :: "string option"

record incoming_response =
  shift_summary :: "string option"
  patient_updates :: "string option"
  follow_up_required :: "string option"
  alerts :: "string list option"

text \<open>\<^verbatim>\<open>m?.p\<close>, \<^verbatim>\<open>a || b\<close> on strings, \<^verbatim>\<open>(m?.p ?? []).join("; ")\<close> and a chain of matches.\<close>

definition optProp :: "'r option \<Rightarrow> ('r \<Rightarrow> 'a option) \<Rightarrow> 'a option" where
  "optProp m p = (case m of None \<Rightarrow> None | Some r \<Rightarrow> p r)"

definition orStr :: "string \<Rightarrow> string \<Rightarrow> string" where
  "orStr a b = (if a \<noteq> [] then a else b)"

definition optStr :: "string option \<Rightarrow> string" where
  "optStr a = (case a of None \<Rightarrow> [] | Some s \<Rightarrow> s)"

definition joinList :: "string list option \<Rightarrow> string" where
  "joinList xs = joinWith ''; '' (case xs of None \<Rightarrow> [] | Some l \<Rightarrow> l)"

fun firstMatch :: "re list \<Rightarrow> string \<Rightarrow> (string \<times> string list) option" where
  "firstMatch [] s = None"
| "firstMatch (r # rs) s = (case matchRe r s of Some x \<Rightarrow> Some x | None \<Rightarrow> firstMatch rs s)"

text \<open>\<^verbatim>\<open>text.match(r)?.[0] || ""\<close>.\<close>

definition matched :: "re \<Rightarrow> string \<Rightarrow> string" where
  "matched r s = (case matchRe r s of None \<Rightarrow> [] | Some (whole, caps) \<Rightarrow> whole)"

definition clamp :: "nat \<Rightarrow> nat \<Rightarrow> nat \<Rightarrow> nat" where
  "clamp n lo hi = max lo (min hi n)"

definition reBP :: re where
  "reBP = seqs [Lit ''BP'', spaces, Grp digits, spaces, Lit ''/'', spaces, Grp digits]"

definition reBloodPressure :: re where
  "reBloodPressure =
     seqs [Lit ''blood pressure'', spaces, Grp digits, spaces, Lit ''/'', spaces, Grp digits]"

definition reBy :: re where
  "reBy = seqs [Grp digits, spaces, Lit ''by'', spaces, Grp digits]"

definition reHR :: re where
  "reHR = seqs [Lit ''HR'', spaces, Grp digits]"

definition reHeartRate :: re where
  "reHeartRate = seqs [Lit ''heart rate'', spaces, Grp digits]"

definition reTemp :: re where
  "reTemp = seqs [Lit ''temp'', spaces, Grp (Seq digits (Opt (Seq (Lit ''.'') digits)))]"

definition reTemperature :: re where
  "reTemperature =
     seqs [Lit ''temperature'', spaces, Grp (Seq digits (Opt (Seq (Lit ''.'') digits)))]"

definition reTempInt :: re where
  "reTempInt = seqs [Lit ''temp'', spaces, Grp digits]"

definition reSpo2 :: re where
  "reSpo2 = seqs [Lit ''spo'', Opt (Lit ''2''), spaces, Grp digits]"

definition reOxygen :: re where
  "reOxygen = seqs [Lit ''oxygen'', spaces, Grp digits]"

definition reSPO :: re where
  "reSPO = seqs [Lit ''SPO'', spaces, Grp digits]"

definition rePatientStatus :: re where
  "rePatientStatus = seqs [Lit ''patient status'', notDots, Lit ''stable'', notDots]"

definition reStatus :: re where
  "reStatus = seqs [Lit ''status'', notDots, Lit ''stable'', notDots]"

definition reMedications :: re where
  "reMedications = seqs [Lit ''medication'', Opt (Lit ''s''), notDots]"

definition rePending :: re where
  "rePending = seqs [Lit ''pending'', notDots]"

definition reMedicationsParacetamol :: re where
  "reMedicationsParacetamol =
     seqs [Lit ''medication'', Opt (Lit ''s''), notDots, Lit ''paracetamol'', notDots]"

definition reInvestigationsPending :: re where
  "reInvestigationsPending =
     seqs [Lit ''investigation'', Opt (Lit ''s''), notDots, Lit ''pending confirm'', notDots]"

text \<open>
  The three fallback extractions of \<^verbatim>\<open>mapOutgoingFromTranscript\<close> over the raw
  transcript.
\<close>

definition fallbackStatus :: "string \<Rightarrow> string" where
  "fallbackStatus text = orStr (matched rePatientStatus text) (orStr (matched reStatus text) [])"

definition fallbackMeds :: "string \<Rightarrow> string" where
  "fallbackMeds text = orStr (matched reMedications text) []"

definition fallbackTasks :: "string \<Rightarrow> string" where
  "fallbackTasks text = orStr (matched rePending text) []"

text \<open>
  \<^verbatim>\<open>mapOutgoingFromTranscript\<close>. Everything after the call of \<^verbatim>\<open>postJSON\<close> is in the
  \<^verbatim>\<open>try\<close> block, so it runs only when the call returns; the \<^verbatim>\<open>catch\<close> block shows a
  toast.
\<close>

definition mapOutgoingFromTranscript ::
  "(string \<Rightarrow> string \<Rightarrow> outgoing_response option http_result) \<Rightarrow> handover_page \<Rightarrow> handover_page" where
  "mapOutgoingFromTranscript postJSON st =
     (let text = trim (txOutgoing st)
      in if text = [] then st
         else (case postJSON ''/api/map/handover_outgoing'' text of
             Returns m \<Rightarrow>
               (let prev = formData st;
                    vitalSigns = orStr (optStr (optProp m vital_signs)) text;
                    bpMatch = firstMatch [reBP, reBloodPressure, reBy] vitalSigns;
                    hrMatch = firstMatch [reHR, reHeartRate, reHR] vitalSigns;
                    tempMatch = firstMatch [reTemp, reTemperature, reTempInt] vitalSigns;
                    spo2Match = firstMatch [reSpo2, reOxygen, reSPO] vitalSigns;
                    bp' = (case bpMatch of Some (w, caps) \<Rightarrow> caps ! 0 @ ''/'' @ caps ! 1
                                         | None \<Rightarrow> bp (vitals prev));
                    hr' = (case hrMatch of Some (w, caps) \<Rightarrow> caps ! 0 | None \<Rightarrow> hr (vitals prev));
                    temp' = (case tempMatch of
                               Some (w, caps) \<Rightarrow> caps ! 0 @ [char_of (176 :: nat)] @ ''F''
                             | None \<Rightarrow> temp (vitals prev));
                    spo2' = (case spo2Match of
                               Some (w, caps) \<Rightarrow> showNat (clamp (parseDigits (caps ! 0)) 0 100)
                             | None \<Rightarrow> spo2 (vitals prev))
                in st\<lparr>formData := prev\<lparr>
                        currentPatientStatus :=
                          orStr (optStr (optProp m patient_condition))
                            (orStr (fallbackStatus text) (currentPatientStatus prev)),
                        vitals := (vitals prev)\<lparr>bp := bp', hr := hr', temp := temp', spo2 := spo2'\<rparr>,
                        medsGiven :=
                          orStr (joinList (optProp m m_medications))
                            (orStr (fallbackMeds text) (medsGiven prev)),
                        medsDue :=
                          orStr (joinList (optProp m pending_tasks))
                            (orStr (fallbackTasks text) (medsDue prev)),
                        pendingInvestigations :=
                          orStr (optStr (optProp m special_instructions)) (pendingInvestigations prev)\<rparr>,
                      toasts := toasts st @ [ToastSuccess ''Outgoing mapped'']\<rparr>)
           | Throws msg \<Rightarrow>
               st\<lparr>toasts := toasts st @ [ToastError ''Failed to map outgoing data'']\<rparr>))"

text \<open>The fallback values of \<^verbatim>\<open>mapIncomingFromTranscript\<close>.\<close>

definition fallbackVerification :: "string \<Rightarrow> string" where
  "fallbackVerification text = (if includes_str text ''verification'' then text else [])"

definition fallbackMedications :: "string \<Rightarrow> string" where
  "fallbackMedications text =
     (if includes_str text ''medications'' \<or> includes_str text ''paracetamol''
      then orStr (matched reMedicationsParacetamol text) ''paracetamol is pending verify''
      else [])"

definition fallbackInvestigations :: "string \<Rightarrow> string" where
  "fallbackInvestigations text =
     (if includes_str text ''investigations'' \<or> includes_str text ''pending confirm''
      then orStr (matched reInvestigationsPending text) ''investigations pending confirm''
      else [])"

definition mapIncomingFromTranscript ::
  "(string \<Rightarrow> string \<Rightarrow> incoming_response option http_result) \<Rightarrow> handover_page \<Rightarrow> handover_page" where
  "mapIncomingFromTranscript postJSON st =
     (let text = trim (txIncoming st)
      in if text = [] then st
         else (case postJSON ''/api/map/handover_incoming'' text of
             Returns None \<Rightarrow>
               st\<lparr>toasts := toasts st @ [ToastError ''Empty response from mapping service'']\<rparr>
           | Returns (Some m) \<Rightarrow>
               (let prev = formData st
                in st\<lparr>formData := prev\<lparr>
                        verification :=
                          orStr (optStr (shift_summary m))
                            (orStr (fallbackVerification text) (verification prev)),
                        acknowledgement :=
                          orStr (optStr (patient_updates m)) (acknowledgement prev),
                        investigations :=
                          orStr (optStr (follow_up_required m))
                            (orStr (fallbackInvestigations text) (investigations prev)),
                        medications :=
                          orStr (joinList (alerts m))
                            (orStr (fallbackMedications text) (medications prev))\<rparr>,
                      toasts := toasts st @ [ToastSuccess ''Incoming mapped'']\<rparr>)
           | Throws msg \<Rightarrow>
               st\<lparr>toasts := toasts st @ [ToastError (''Failed to map incoming data: '' @ msg)]\<rparr>))"

section \<open>The shapes of dates and times\<close>

text \<open>
  The shapes that the patterns of the date and time normalizers describe, written out as
  decompositions of the string: \<open>YYYY-MM-DD\<close>; day, month and year of one or two, one or
  two and two to four digits with a separator \<^verbatim>\<open>-\<close> or \<^verbatim>\<open>/\<close> after the day and after the
  month; \<open>H:MM\<close> with one or two digits of the hour; and \<open>H:MM\<close>, white space, and
  \<open>am\<close> or \<open>pm\<close> in any case.
\<close>

definition isoForm :: "string \<Rightarrow> bool" where
  "isoForm s =
     (\<exists>y m d. s = y @ ''-'' @ m @ ''-'' @ d \<and>
        allDigits y \<and> length y = 4 \<and> allDigits m \<and> length m = 2 \<and>
        allDigits d \<and> length d = 2)"

definition dmyForm :: "string \<Rightarrow> bool" where
  "dmyForm s =
     (\<exists>d m y s1 s2. s = d @ [s1] @ m @ [s2] @ y \<and> isDateSep s1 \<and> isDateSep s2 \<and>
        allDigits d \<and> 1 \<le> length d \<and> length d \<le> 2 \<and>
        allDigits m \<and> 1 \<le> length m \<and> length m \<le> 2 \<and>
        allDigits y \<and> 2 \<le> length y \<and> length y \<le> 4)"

definition hmmForm :: "string \<Rightarrow> bool" where
  "hmmForm s =
     (\<exists>h m. s = h @ '':'' @ m \<and>
        allDigits h \<and> 1 \<le> length h \<and> length h \<le> 2 \<and> allDigits m \<and> length m = 2)"

definition ampmForm :: "string \<Rightarrow> bool" where
  "ampmForm s =
     (\<exists>h m ws p. s = h @ '':'' @ m @ ws @ p \<and>
        allDigits h \<and> 1 \<le> length h \<and> length h \<le> 2 \<and> allDigits m \<and> length m = 2 \<and>
        list_all isSpace ws \<and> (toLowerCase p = ''am'' \<or> toLowerCase p = ''pm''))"

text \<open>The hour of the 24-hour clock for an hour of the 12-hour clock and a period.\<close>

definition to24 :: "nat \<Rightarrow> string \<Rightarrow> nat" where
  "to24 h period =
     (if period = ''pm'' \<and> h \<noteq> 12 then h + 12
      else if period = ''am'' \<and> h = 12 then 0
      else h)"

section \<open>Sample inputs\<close>

text \<open>A reading of the clock and a response without any field, for the examples.\<close>

definition sampleClock :: clock where
  "sampleClock =
     \<lparr>todayDate = \<lparr>ymdYear = 2026, ymdMonth = 11, ymdDay = 2\<rparr>,
      tomorrowDate = \<lparr>ymdYear = 2026, ymdMonth = 11, ymdDay = 3\<rparr>,
      yesterdayDate = \<lparr>ymdYear = 2026, ymdMonth = 11, ymdDay = 1\<rparr>,
      clockHours = 9, clockMinutes = 5, nowISO = ''2026-11-02T03:35:00.000Z'',
      timestamp36 = ''mh0abc12'', random36 = ''x1y2z''\<rparr>"

definition noFields :: RawAdmissionData where
  "noFields =
     \<lparr>raw_name = None, raw_age = AgeUndefined, raw_gender = None, raw_mobile_no = None,
      raw_admitted_under_doctor = None, raw_attender_name = None, raw_relation = None,
      raw_attender_mobile_no = None, raw_aadhaar_number = None, raw_admission_date = None,
      raw_admission_time = None, raw_ward = None, raw_bed_number = None, raw_reason = None\<rparr>"

text \<open>A handover page with a dictated transcript and an empty form.\<close>

definition sampleHandover :: handover_page where
  "sampleHandover =
     \<lparr>formData = initialData,
      txOutgoing = ''Patient status is stable. Medications given. Pending labs.'',
      txIncoming = ''verification done, medications pending'',
      toasts = []\<rparr>"

section \<open>Properties\<close>

subsection \<open>Strings\<close>

lemma startsWith_iff: "startsWith s p \<longleftrightarrow> (\<exists>q. s = p @ q)"
  by (induction s p rule: startsWith.induct) auto

lemma includes_iff: "includes_str s sub \<longleftrightarrow> (\<exists>p q. s = p @ sub @ q)"
proof (induction s)
  case Nil
  then show ?case by auto
next
  case (Cons c cs)
  show ?case
  proof
    assume "includes_str (c # cs) sub"
    then consider "startsWith (c # cs) sub" | "includes_str cs sub" by auto
    then show "\<exists>p q. c # cs = p @ sub @ q"
    proof cases
      case 1
      then obtain q where "c # cs = sub @ q" by (auto simp: startsWith_iff)
      then have "c # cs = [] @ sub @ q" by simp
      then show ?thesis by blast
    next
      case 2
      then obtain p q where "cs = p @ sub @ q" using Cons.IH by auto
      then have "c # cs = (c # p) @ sub @ q" by simp
      then show ?thesis by blast
    qed
  next
    assume "\<exists>p q. c # cs = p @ sub @ q"
    then obtain p q where pq: "c # cs = p @ sub @ q" by blast
    show "includes_str (c # cs) sub"
    proof (cases p)
      case Nil
      with pq have "startsWith (c # cs) sub" by (auto simp: startsWith_iff)
      then show ?thesis by simp
    next
      case (Cons a p')
      with pq have "cs = p' @ sub @ q" by simp
      then have "includes_str cs sub" using Cons.IH by blast
      then show ?thesis by simp
    qed
  qed
qed

lemma includes_dropWhile:
  assumes "sub \<noteq> []" and "\<not> P (hd sub)"
  shows "includes_str (dropWhile P s) sub \<longleftrightarrow> includes_str s sub"
proof (induction s)
  case Nil
  then show ?case by simp
next
  case (Cons c cs)
  show ?case
  proof (cases "P c")
    case True
    obtain x xs where sub: "sub = x # xs" using assms(1) by (cases sub) auto
    with assms(2) True have "\<not> startsWith (c # cs) sub" by auto
    with True Cons.IH show ?thesis by simp
  next
    case False
    then show ?thesis by simp
  qed
qed

lemma includes_rev: "includes_str (rev s) (rev sub) \<longleftrightarrow> includes_str s sub"
proof -
  have "(\<exists>p q. rev s = p @ rev sub @ q) \<longleftrightarrow> (\<exists>p q. s = p @ sub @ q)"
  proof
    assume "\<exists>p q. rev s = p @ rev sub @ q"
    then obtain p q where "rev s = p @ rev sub @ q" by blast
    then have "rev (rev s) = rev (p @ rev sub @ q)" by simp
    then have "s = rev q @ sub @ rev p" by simp
    then show "\<exists>p q. s = p @ sub @ q" by blast
  next
    assume "\<exists>p q. s = p @ sub @ q"
    then obtain p q where "s = p @ sub @ q" by blast
    then have "rev s = rev q @ rev sub @ rev p" by simp
    then show "\<exists>p q. rev s = p @ rev sub @ q" by blast
  qed
  then show ?thesis by (simp add: includes_iff)
qed

lemma includes_trim:
  assumes "sub \<noteq> []" and "\<not> isSpace (hd sub)" and "\<not> isSpace (last sub)"
  shows "includes_str (trim s) sub \<longleftrightarrow> includes_str s sub"
proof -
  have r: "rev sub \<noteq> []" "\<not> isSpace (hd (rev sub))"
    using assms by (simp_all add: hd_rev)
  have "includes_str (trim s) sub \<longleftrightarrow> includes_str (dropWhile isSpace (rev (dropWhile isSpace s))) (rev sub)"
    unfolding trim_def using includes_rev [of "dropWhile isSpace (rev (dropWhile isSpace s))" "rev sub"] by simp
  also have "\<dots> \<longleftrightarrow> includes_str (rev (dropWhile isSpace s)) (rev sub)"
    using r by (rule includes_dropWhile [where P = isSpace])
  also have "\<dots> \<longleftrightarrow> includes_str (dropWhile isSpace s) sub"
    by (rule includes_rev)
  also have "\<dots> \<longleftrightarrow> includes_str s sub"
    using assms(1,2) by (rule includes_dropWhile [where P = isSpace])
  finally show ?thesis .
qed

lemma female_has_male: "includes_str s ''female'' \<Longrightarrow> includes_str s ''male''"
proof -
  assume "includes_str s ''female''"
  then obtain p q where "s = p @ ''female'' @ q" by (auto simp: includes_iff)
  then have "s = (p @ ''fe'') @ ''male'' @ q" by simp
  then show ?thesis unfolding includes_iff by blast
qed

subsection \<open>Gender\<close>

text \<open>
  C7. The gender normalizer lowercases its input and looks for the substring "female"
  before "male": an input whose lowercase form contains "female" gives "female", one
  that contains "male" but not "female" gives "male", and everything else, a missing
  input included, gives "other".
\<close>

theorem normalizeGender_female_before_male:
  "normalizeGender None = ''other'' \<and>
   normalizeGender (Some s) =
     (if (\<exists>p q. toLowerCase s = p @ ''female'' @ q) then ''female''
      else if (\<exists>p q. toLowerCase s = p @ ''male'' @ q) then ''male''
      else ''other'')"
proof -
  have none: "normalizeGender None = ''other''"
    by (simp add: normalizeGender_def falsy_def)
  have f: "includes_str (trim t) ''female'' \<longleftrightarrow> includes_str t ''female''" for t
    by (rule includes_trim) (simp_all add: isSpace_def)
  have m: "includes_str (trim t) ''male'' \<longleftrightarrow> includes_str t ''male''" for t
    by (rule includes_trim) (simp_all add: isSpace_def)
  have some: "normalizeGender (Some s) =
     (if includes_str (toLowerCase s) ''female'' then ''female''
      else if includes_str (toLowerCase s) ''male'' then ''male''
      else ''other'')"
  proof (cases "s = []")
    case True
    then show ?thesis by (simp add: normalizeGender_def falsy_def toLowerCase_def)
  next
    case False
    then show ?thesis
      using female_has_male [of "toLowerCase s"]
      by (simp add: normalizeGender_def falsy_def Let_def f m)
  qed
  show ?thesis using none some by (simp only: includes_iff simp_thms)
qed

theorem normalizeGender_female_before_male_witness:
  "normalizeGender (Some ''Female'') = ''female'' \<and>
   normalizeGender (Some ''Transfemale'') = ''female'' \<and>
   normalizeGender (Some ''Male'') = ''male'' \<and>
   normalizeGender (Some ''M'') = ''other''"
proof -
  have l: "toLowerCase ''Female'' = ''female''" "toLowerCase ''Transfemale'' = ''transfemale''"
    "toLowerCase ''Male'' = ''male''" "toLowerCase ''M'' = ''m''"
    by code_simp+
  note t1 = normalizeGender_female_before_male [of "''Female''", unfolded l includes_iff [symmetric]]
  note t2 = normalizeGender_female_before_male [of "''Transfemale''", unfolded l includes_iff [symmetric]]
  note t3 = normalizeGender_female_before_male [of "''Male''", unfolded l includes_iff [symmetric]]
  note t4 = normalizeGender_female_before_male [of "''M''", unfolded l includes_iff [symmetric]]
  show ?thesis using t1 t2 t3 t4 by simp
qed

subsection \<open>Aadhaar number\<close>

text \<open>
  C8. The Aadhaar normalizer keeps the digits of its input only; twelve digits are
  returned as three groups of four separated by single spaces, any other number of
  digits is returned as it is, and no input raises an error.
\<close>

theorem normalizeAadhaarNumber_groups:
  "normalizeAadhaarNumber (Some s) =
     (let d = filter isDigit s
      in if length d = 12 then take 4 d @ '' '' @ take 4 (drop 4 d) @ '' '' @ drop 8 d else d)"
  by (simp add: normalizeAadhaarNumber_def falsy_def stripNonDigits_def substring_def Let_def)

theorem normalizeAadhaarNumber_groups_witness:
  "normalizeAadhaarNumber (Some ''123456789012'') = ''1234 5678 9012'' \<and>
   normalizeAadhaarNumber (Some ''12345678901'') = ''12345678901'' \<and>
   normalizeAadhaarNumber (Some ''1234-5678 9012'') = ''1234 5678 9012''"
  using normalizeAadhaarNumber_groups [of "''123456789012''"]
        normalizeAadhaarNumber_groups [of "''12345678901''"]
        normalizeAadhaarNumber_groups [of "''1234-5678 9012''"]
  by (simp add: isDigit_def)

subsection \<open>The merge policy\<close>

lemma fold_merge_lookup:
  assumes "distinct (map fst patch)"
  shows "map_of (fold (\<lambda>(k, v) out. if isPresent v then AList.update k v out else out) patch out) k =
     (case map_of patch k of
        None \<Rightarrow> map_of out k
      | Some v \<Rightarrow> if isPresent v then Some v else map_of out k)"
  using assms
proof (induction patch arbitrary: out)
  case Nil
  then show ?case by simp
next
  case (Cons e rest)
  obtain k' v' where e: "e = (k', v')" by (cases e)
  from Cons.prems e have d: "distinct (map fst rest)" and notin: "k' \<notin> fst ` set rest"
    by simp_all
  from notin have none: "map_of rest k' = None"
    by (simp add: map_of_eq_None_iff)
  show ?case
  proof (cases "k = k'")
    case True
    then show ?thesis
      using Cons.IH [OF d] e none by (simp add: update_conv')
  next
    case False
    then show ?thesis
      using Cons.IH [OF d] e by (simp add: update_conv' split: option.splits)
  qed
qed

text \<open>
  C1. For every base record and every patch object, the result of
  \<open>mergeIfPresent base patch\<close> holds at each key of the patch the patch's value when
  that value is defined, not null and not empty after string coercion and trimming, and
  the base's value otherwise; a key that the patch does not have keeps the base's value.
  (An object has each key once: the keys of the patch are distinct.)
\<close>

theorem mergeIfPresent_overwrites_only_present:
  assumes "distinct (map fst patch)"
  shows "map_of (mergeIfPresent base patch) k =
     (case map_of patch k of
        None \<Rightarrow> map_of base k
      | Some v \<Rightarrow>
          if v \<noteq> JUndefined \<and> v \<noteq> JNull \<and> trim (toStr v) \<noteq> [] then Some v
          else map_of base k)"
  using fold_merge_lookup [OF assms, of base k]
  by (simp add: mergeIfPresent_def isPresent_def split: option.splits)

theorem mergeIfPresent_overwrites_only_present_witness:
  "distinct (map fst [(''name'', JStr ''Asha''), (''age'', JStr ''  ''), (''ward'', JNull)]) \<and>
   map_of (mergeIfPresent [(''name'', JStr ''Old''), (''age'', JStr ''45''), (''ward'', JStr ''W1''), (''bed'', JStr ''3'')]
                          [(''name'', JStr ''Asha''), (''age'', JStr ''  ''), (''ward'', JNull)]) ''name''
     = Some (JStr ''Asha'') \<and>
   map_of (mergeIfPresent [(''name'', JStr ''Old''), (''age'', JStr ''45''), (''ward'', JStr ''W1''), (''bed'', JStr ''3'')]
                          [(''name'', JStr ''Asha''), (''age'', JStr ''  ''), (''ward'', JNull)]) ''age''
     = Some (JStr ''45'') \<and>
   map_of (mergeIfPresent [(''name'', JStr ''Old''), (''age'', JStr ''45''), (''ward'', JStr ''W1''), (''bed'', JStr ''3'')]
                          [(''name'', JStr ''Asha''), (''age'', JStr ''  ''), (''ward'', JNull)]) ''ward''
     = Some (JStr ''W1'') \<and>
   map_of (mergeIfPresent [(''name'', JStr ''Old''), (''age'', JStr ''45''), (''ward'', JStr ''W1''), (''bed'', JStr ''3'')]
                          [(''name'', JStr ''Asha''), (''age'', JStr ''  ''), (''ward'', JNull)]) ''bed''
     = Some (JStr ''3'')"
proof -
  have d: "distinct (map fst [(''name'', JStr ''Asha''), (''age'', JStr ''  ''), (''ward'', JNull)])"
    by simp
  have sp: "trim ''  '' = []" "trim ''Asha'' = ''Asha''"
    by (simp_all add: trim_def isSpace_def)
  show ?thesis
    using d
      mergeIfPresent_overwrites_only_present [OF d, of _ "''name''"]
      mergeIfPresent_overwrites_only_present [OF d, of _ "''age''"]
      mergeIfPresent_overwrites_only_present [OF d, of _ "''ward''"]
      mergeIfPresent_overwrites_only_present [OF d, of _ "''bed''"]
    by (simp add: sp)
qed

subsection \<open>Transcription\<close>

lemma empty_audio_message_no_fetch:
  "\<not> includes_str ''Audio blob is empty - no audio was recorded'' ''fetch''"
  by simp

lemma processAudio_empty:
  assumes "blobSize audioBlob = 0"
  shows "processAudio env audioBlob st =
     (st\<lparr>isProcessing := False,
         err := Some ''Transcription error: Audio blob is empty - no audio was recorded. Please try speaking more clearly.'',
         processingTime := 0\<rparr>,
      [OnTranscript [], OnTranscribe []])"
  using assms empty_audio_message_no_fetch
  by (simp add: processAudio_def processAudioTry_def processAudioCatch_def)

lemma onstop_empty:
  assumes "sum_list (map blobSize audioChunks) = 0"
  shows "onstop env audioChunks st =
     (st\<lparr>simpleIsProcessing := False, simpleError := ''No audio recorded''\<rparr>, [])"
  using assms by (simp add: onstop_def onstopTry_def)

lemma processAudio_fetches:
  assumes "0 < blobSize audioBlob" and "enableTranscription env"
  shows "Fetch (apiBase env @ ''/api/transcribe'') \<in> set (snd (processAudio env audioBlob st))"
  using assms
  by (auto simp: processAudio_def processAudioTry_def processAudioCatch_def Let_def
           split: fetch_outcome.splits jsval.splits prod.splits option.splits)

lemma onstop_fetches:
  assumes "0 < sum_list (map blobSize audioChunks)"
  shows "Fetch ''http://localhost:8000/api/transcribe'' \<in> set (snd (onstop env audioChunks st))"
proof -
  define n where "n = sum_list (map blobSize audioChunks)"
  have "n \<noteq> 0" unfolding n_def using assms by (rule gr_implies_not0)
  then show ?thesis
    unfolding onstop_def onstopTry_def n_def [symmetric]
    by (auto simp: Let_def split: fetch_outcome.splits jsval.splits prod.splits option.splits)
qed

text \<open>
  C3. For every audio blob of size 0 the transcription step fails with the empty-audio
  error before any request is made: the \<open>try\<close> block throws the error with no event
  issued, the component shows it as its error, and no request to the transcription
  endpoint appears among the events. The same holds for the stop handler of the simple
  recorder, where the blob is built from the recorded chunks.
\<close>

theorem empty_audio_fails_before_fetch:
  "(blobSize audioBlob = 0 \<longrightarrow>
      processAudioTry env audioBlob st =
        (st, [], Some (JsError ''Error'' ''Audio blob is empty - no audio was recorded'')) \<and>
      err (fst (processAudio env audioBlob st)) =
        Some ''Transcription error: Audio blob is empty - no audio was recorded. Please try speaking more clearly.'' \<and>
      snd (processAudio env audioBlob st) = [OnTranscript [], OnTranscribe []] \<and>
      (\<forall>url. Fetch url \<notin> set (snd (processAudio env audioBlob st)))) \<and>
   (sum_list (map blobSize audioChunks) = 0 \<longrightarrow>
      onstopTry env audioChunks st' = (st', [], Some (JsError ''Error'' ''No audio recorded'')) \<and>
      simpleError (fst (onstop env audioChunks st')) = ''No audio recorded'' \<and>
      snd (onstop env audioChunks st') = [])"
proof (intro conjI impI allI)
  assume z: "blobSize audioBlob = 0"
  show "processAudioTry env audioBlob st =
        (st, [], Some (JsError ''Error'' ''Audio blob is empty - no audio was recorded''))"
    using z by (simp add: processAudioTry_def)
  show "err (fst (processAudio env audioBlob st)) =
        Some ''Transcription error: Audio blob is empty - no audio was recorded. Please try speaking more clearly.''"
    by (simp add: processAudio_empty [OF z])
  show "snd (processAudio env audioBlob st) = [OnTranscript [], OnTranscribe []]"
    by (simp add: processAudio_empty [OF z])
  show "Fetch url \<notin> set (snd (processAudio env audioBlob st))" for url
    by (simp add: processAudio_empty [OF z])
next
  assume z: "sum_list (map blobSize audioChunks) = 0"
  show "onstopTry env audioChunks st' = (st', [], Some (JsError ''Error'' ''No audio recorded''))"
    using z by (simp add: onstopTry_def)
  show "simpleError (fst (onstop env audioChunks st')) = ''No audio recorded''"
    by (simp add: onstop_empty [OF z])
  show "snd (onstop env audioChunks st') = []"
    by (simp add: onstop_empty [OF z])
qed

theorem empty_audio_fails_before_fetch_witness:
  "blobSize \<lparr>blobSize = 0, blobType = ''audio/webm''\<rparr> = 0 \<and>
   sum_list (map blobSize []) = 0 \<and>
   err (fst (processAudio
      \<lparr>enableTranscription = True, apiBase = ''http://localhost:8000'',
       jsonParse = (\<lambda>t. None),
       fetch = (\<lambda>u. FetchResolves \<lparr>respStatus = 200, respBody = ''hello''\<rparr>)\<rparr>
      \<lparr>blobSize = 0, blobType = ''audio/webm''\<rparr>
      \<lparr>isProcessing = False, err = None, processingTime = 0, localText = []\<rparr>)) =
     Some ''Transcription error: Audio blob is empty - no audio was recorded. Please try speaking more clearly.'' \<and>
   snd (processAudio
      \<lparr>enableTranscription = True, apiBase = ''http://localhost:8000'',
       jsonParse = (\<lambda>t. None),
       fetch = (\<lambda>u. FetchResolves \<lparr>respStatus = 200, respBody = ''hello''\<rparr>)\<rparr>
      \<lparr>blobSize = 0, blobType = ''audio/webm''\<rparr>
      \<lparr>isProcessing = False, err = None, processingTime = 0, localText = []\<rparr>) =
     [OnTranscript [], OnTranscribe []] \<and>
   onstop
      \<lparr>enableTranscription = True, apiBase = ''http://localhost:8000'',
       jsonParse = (\<lambda>t. None),
       fetch = (\<lambda>u. FetchResolves \<lparr>respStatus = 200, respBody = ''hello''\<rparr>)\<rparr>
      []
      \<lparr>simpleIsProcessing = False, simpleTranscript = [], simpleError = []\<rparr> =
     (\<lparr>simpleIsProcessing = False, simpleTranscript = [], simpleError = ''No audio recorded''\<rparr>, [])"
proof -
  have a: "blobSize \<lparr>blobSize = 0, blobType = ''audio/webm''\<rparr> = 0" by simp
  have b: "sum_list (map blobSize []) = 0" by simp
  note t = empty_audio_fails_before_fetch
    [of "\<lparr>blobSize = 0, blobType = ''audio/webm''\<rparr>"
        "\<lparr>enableTranscription = True, apiBase = ''http://localhost:8000'',
          jsonParse = (\<lambda>t. None),
          fetch = (\<lambda>u. FetchResolves \<lparr>respStatus = 200, respBody = ''hello''\<rparr>)\<rparr>"
        "\<lparr>isProcessing = False, err = None, processingTime = 0, localText = []\<rparr>"
        "[]"
        "\<lparr>simpleIsProcessing = False, simpleTranscript = [], simpleError = []\<rparr>"]
  from t a b show ?thesis
    by (simp add: onstop_def onstopTry_def)
qed

lemma processAudio_ok_transcript:
  assumes "0 < blobSize audioBlob" and "enableTranscription env"
    and "fetch env (apiBase env @ ''/api/transcribe'') = FetchResolves res" and "ok res"
    and "extractTranscript (safeJson (jsonParse env) res) = JStr x"
  shows "processAudio env audioBlob st =
     (if trim x \<noteq> [] then
        (st\<lparr>isProcessing := False, err := None, processingTime := 0, localText := trim x\<rparr>,
         [Fetch (apiBase env @ ''/api/transcribe''), OnTranscript (trim x), OnTranscribe (trim x)])
      else
        (st\<lparr>isProcessing := False, err := None, processingTime := 0,
            localText := ''No transcript received from server''\<rparr>,
         [Fetch (apiBase env @ ''/api/transcribe''), OnTranscript [], OnTranscribe []]))"
proof -
  have e: "x = [] \<Longrightarrow> trim x = []" by (simp add: trim_def)
  show ?thesis
    using assms e
    by (auto simp: processAudio_def processAudioTry_def Let_def)
qed

text \<open>
  C4. From a response of the shape \<open>{text: x}\<close>, \<open>{transcript: x}\<close>, \<open>{result: x}\<close> or
  the bare string \<open>x\<close> the extracted transcript is \<open>x\<close>. A body that does not parse as
  JSON gives the object with an empty \<open>text\<close> and the raw body under \<open>_raw\<close>, whose
  transcript is empty. A successful response with an empty (or blank) transcript calls
  the callbacks with the empty string and sets no error.
\<close>

theorem transcript_extraction_tolerant:
  "extractTranscript (JObj [(''text'', JStr x)]) = JStr x \<and>
   extractTranscript (JObj [(''transcript'', JStr x)]) = JStr x \<and>
   extractTranscript (JObj [(''result'', JStr x)]) = JStr x \<and>
   extractTranscript (JStr x) = JStr x \<and>
   (parse (respBody res) = None \<longrightarrow>
      safeJson parse res = JObj [(''text'', JStr []), (''_raw'', JStr (respBody res))] \<and>
      extractTranscript (safeJson parse res) = JStr []) \<and>
   (0 < blobSize audioBlob \<and> enableTranscription env \<and>
    fetch env (apiBase env @ ''/api/transcribe'') = FetchResolves res \<and> ok res \<and>
    extractTranscript (safeJson (jsonParse env) res) = JStr x \<and> trim x = [] \<longrightarrow>
      err (fst (processAudio env audioBlob st)) = None \<and>
      snd (processAudio env audioBlob st) =
        [Fetch (apiBase env @ ''/api/transcribe''), OnTranscript [], OnTranscribe []])"
proof (intro conjI impI)
  show "extractTranscript (JObj [(''text'', JStr x)]) = JStr x"
    by (simp add: extractTranscript_def jsOr_def getProp_def)
  show "extractTranscript (JObj [(''transcript'', JStr x)]) = JStr x"
    by (simp add: extractTranscript_def jsOr_def getProp_def)
  show "extractTranscript (JObj [(''result'', JStr x)]) = JStr x"
    by (simp add: extractTranscript_def jsOr_def getProp_def)
  show "extractTranscript (JStr x) = JStr x"
    by (simp add: extractTranscript_def)
next
  assume "parse (respBody res) = None"
  then show "safeJson parse res = JObj [(''text'', JStr []), (''_raw'', JStr (respBody res))]"
    and "extractTranscript (safeJson parse res) = JStr []"
    by (simp_all add: safeJson_def extractTranscript_def jsOr_def getProp_def)
next
  assume h: "0 < blobSize audioBlob \<and> enableTranscription env \<and>
    fetch env (apiBase env @ ''/api/transcribe'') = FetchResolves res \<and> ok res \<and>
    extractTranscript (safeJson (jsonParse env) res) = JStr x \<and> trim x = []"
  then have p: "processAudio env audioBlob st =
        (st\<lparr>isProcessing := False, err := None, processingTime := 0,
            localText := ''No transcript received from server''\<rparr>,
         [Fetch (apiBase env @ ''/api/transcribe''), OnTranscript [], OnTranscribe []])"
    using processAudio_ok_transcript [of audioBlob env res x st] by simp
  show "err (fst (processAudio env audioBlob st)) = None" by (simp add: p)
  show "snd (processAudio env audioBlob st) =
        [Fetch (apiBase env @ ''/api/transcribe''), OnTranscript [], OnTranscribe []]"
    by (simp add: p)
qed

theorem transcript_extraction_tolerant_witness:
  "extractTranscript (JObj [(''text'', JStr ''hello'')]) = JStr ''hello'' \<and>
   extractTranscript (safeJson (\<lambda>t. None) \<lparr>respStatus = 200, respBody = ''<html>''\<rparr>) = JStr [] \<and>
   err (fst (processAudio
      \<lparr>enableTranscription = True, apiBase = ''http://localhost:8000'',
       jsonParse = (\<lambda>t. Some (JObj [(''text'', JStr [])])),
       fetch = (\<lambda>u. FetchResolves \<lparr>respStatus = 200, respBody = ''{}''\<rparr>)\<rparr>
      \<lparr>blobSize = 5, blobType = ''audio/webm''\<rparr>
      \<lparr>isProcessing = False, err = None, processingTime = 0, localText = []\<rparr>)) = None \<and>
   snd (processAudio
      \<lparr>enableTranscription = True, apiBase = ''http://localhost:8000'',
       jsonParse = (\<lambda>t. Some (JObj [(''text'', JStr [])])),
       fetch = (\<lambda>u. FetchResolves \<lparr>respStatus = 200, respBody = ''{}''\<rparr>)\<rparr>
      \<lparr>blobSize = 5, blobType = ''audio/webm''\<rparr>
      \<lparr>isProcessing = False, err = None, processingTime = 0, localText = []\<rparr>) =
     [Fetch ''http://localhost:8000/api/transcribe'', OnTranscript [], OnTranscribe []]"
proof -
  note t1 = transcript_extraction_tolerant
    [where x = "''hello''" and parse = "\<lambda>t. None"
       and res = "\<lparr>respStatus = 200, respBody = ''<html>''\<rparr>"
       and audioBlob = "\<lparr>blobSize = 5, blobType = ''audio/webm''\<rparr>"
       and env = "\<lparr>enableTranscription = True, apiBase = ''http://localhost:8000'',
          jsonParse = (\<lambda>t. Some (JObj [(''text'', JStr [])])),
          fetch = (\<lambda>u. FetchResolves \<lparr>respStatus = 200, respBody = ''{}''\<rparr>)\<rparr>"
       and st = "\<lparr>isProcessing = False, err = None, processingTime = 0, localText = []\<rparr>"]
  note t2 = transcript_extraction_tolerant
    [where x = "[]" and parse = "\<lambda>t. None"
       and res = "\<lparr>respStatus = 200, respBody = ''{}''\<rparr>"
       and audioBlob = "\<lparr>blobSize = 5, blobType = ''audio/webm''\<rparr>"
       and env = "\<lparr>enableTranscription = True, apiBase = ''http://localhost:8000'',
          jsonParse = (\<lambda>t. Some (JObj [(''text'', JStr [])])),
          fetch = (\<lambda>u. FetchResolves \<lparr>respStatus = 200, respBody = ''{}''\<rparr>)\<rparr>"
       and st = "\<lparr>isProcessing = False, err = None, processingTime = 0, localText = []\<rparr>"]
  have h: "trim [] = []" by (simp add: trim_def)
  have x: "extractTranscript (safeJson (\<lambda>t. Some (JObj [(''text'', JStr [])]))
             \<lparr>respStatus = 200, respBody = ''{}''\<rparr>) = JStr []"
    by (simp add: extractTranscript_def safeJson_def jsOr_def getProp_def)
  from t1 have a: "extractTranscript (JObj [(''text'', JStr ''hello'')]) = JStr ''hello''"
    and b: "extractTranscript (safeJson (\<lambda>t. None) \<lparr>respStatus = 200, respBody = ''<html>''\<rparr>) = JStr []"
    by blast+
  from t2 h x have c: "err (fst (processAudio
      \<lparr>enableTranscription = True, apiBase = ''http://localhost:8000'',
       jsonParse = (\<lambda>t. Some (JObj [(''text'', JStr [])])),
       fetch = (\<lambda>u. FetchResolves \<lparr>respStatus = 200, respBody = ''{}''\<rparr>)\<rparr>
      \<lparr>blobSize = 5, blobType = ''audio/webm''\<rparr>
      \<lparr>isProcessing = False, err = None, processingTime = 0, localText = []\<rparr>)) = None \<and>
   snd (processAudio
      \<lparr>enableTranscription = True, apiBase = ''http://localhost:8000'',
       jsonParse = (\<lambda>t. Some (JObj [(''text'', JStr [])])),
       fetch = (\<lambda>u. FetchResolves \<lparr>respStatus = 200, respBody = ''{}''\<rparr>)\<rparr>
      \<lparr>blobSize = 5, blobType = ''audio/webm''\<rparr>
      \<lparr>isProcessing = False, err = None, processingTime = 0, localText = []\<rparr>) =
     [Fetch ''http://localhost:8000/api/transcribe'', OnTranscript [], OnTranscribe []]"
    by (simp add: ok_def)
  from a b c show ?thesis by blast
qed

subsection \<open>Validation\<close>

lemma trim_Nil [simp]: "trim [] = []"
  by (simp add: trim_def)

lemma missing_iff: "missing s \<longleftrightarrow> trim s = []"
  by (auto simp: missing_def)

lemma isValid_iff:
  "isValid (validateProcessedData d) \<longleftrightarrow>
     trim (name d) \<noteq> [] \<and> 0 \<le> age d \<and> age d \<le> 120 \<and> length (mobile_no d) = 10 \<and>
     (aadhaar_number d = [] \<or> length (stripSpaces (aadhaar_number d)) = 12) \<and>
     trim (admitted_under_doctor d) \<noteq> [] \<and> trim (ward d) \<noteq> [] \<and>
     trim (bed_number d) \<noteq> [] \<and> trim (reason d) \<noteq> []"
  by (auto simp: validateProcessedData_def missing_iff Let_def)

lemma isValid_errors: "isValid (validateProcessedData d) \<longleftrightarrow> errors (validateProcessedData d) = []"
  by (simp add: validateProcessedData_def Let_def)

text \<open>
  C9. For every raw input, \<open>postProcessAdmission\<close> returns the record built from the
  normalized fields, whether or not it passes validation. The record-level validation
  (name present, age in 0..120, mobile number of 10 digits, a given Aadhaar number of 12
  digits, doctor, ward, bed and reason present) only decides whether the list of its
  messages is written as a warning; it changes nothing in the record returned, and the
  admission page merges the record into its form and sets no error whether or not the
  record is valid.
\<close>

theorem postProcessAdmission_validation_only_warns:
  "fst (postProcessAdmission clk rawData) =
     \<lparr>patient_id = generatePatientId clk,
      name = trimOrEmpty (raw_name rawData),
      age = normalizeAge (raw_age rawData),
      gender = normalizeGender (raw_gender rawData),
      mobile_no = normalizeMobileNumber (raw_mobile_no rawData),
      admitted_under_doctor = trimOrEmpty (raw_admitted_under_doctor rawData),
      attender_name = trimOrEmpty (raw_attender_name rawData),
      relation = trimOrEmpty (raw_relation rawData),
      attender_mobile_no = normalizeMobileNumber (raw_attender_mobile_no rawData),
      aadhaar_number = normalizeAadhaarNumber (raw_aadhaar_number rawData),
      admission_date = normalizeDate clk (raw_admission_date rawData),
      admission_time = normalizeTime clk (raw_admission_time rawData),
      ward = trimOrEmpty (raw_ward rawData),
      bed_number = trimOrEmpty (raw_bed_number rawData),
      reason = trimOrEmpty (raw_reason rawData),
      status = ''admitted'',
      created_at = nowISO clk,
      updated_at = nowISO clk\<rparr> \<and>
   snd (postProcessAdmission clk rawData) =
     (if isValid (validateProcessedData (fst (postProcessAdmission clk rawData))) then []
      else [errors (validateProcessedData (fst (postProcessAdmission clk rawData)))]) \<and>
   (isValid (validateProcessedData d) \<longleftrightarrow>
     trim (name d) \<noteq> [] \<and> 0 \<le> age d \<and> age d \<le> 120 \<and> length (mobile_no d) = 10 \<and>
     (aadhaar_number d = [] \<or> length (stripSpaces (aadhaar_number d)) = 12) \<and>
     trim (admitted_under_doctor d) \<noteq> [] \<and> trim (ward d) \<noteq> [] \<and>
     trim (bed_number d) \<noteq> [] \<and> trim (reason d) \<noteq> []) \<and>
   (trim (txAdmission st) \<noteq> [] \<and>
    postJSON ''/api/map/admission'' (combinedText (trim (txAdmission st)) (form st)) = Returns rawData \<longrightarrow>
      form (mapAdmissionFromTranscript clk postJSON st) =
        mergeIfPresent (form st) (admissionPatch (fst (postProcessAdmission clk rawData)) (form st)) \<and>
      error (mapAdmissionFromTranscript clk postJSON st) = None)"
proof (intro conjI impI)
  show "fst (postProcessAdmission clk rawData) =
     \<lparr>patient_id = generatePatientId clk,
      name = trimOrEmpty (raw_name rawData),
      age = normalizeAge (raw_age rawData),
      gender = normalizeGender (raw_gender rawData),
      mobile_no = normalizeMobileNumber (raw_mobile_no rawData),
      admitted_under_doctor = trimOrEmpty (raw_admitted_under_doctor rawData),
      attender_name = trimOrEmpty (raw_attender_name rawData),
      relation = trimOrEmpty (raw_relation rawData),
      attender_mobile_no = normalizeMobileNumber (raw_attender_mobile_no rawData),
      aadhaar_number = normalizeAadhaarNumber (raw_aadhaar_number rawData),
      admission_date = normalizeDate clk (raw_admission_date rawData),
      admission_time = normalizeTime clk (raw_admission_time rawData),
      ward = trimOrEmpty (raw_ward rawData),
      bed_number = trimOrEmpty (raw_bed_number rawData),
      reason = trimOrEmpty (raw_reason rawData),
      status = ''admitted'',
      created_at = nowISO clk,
      updated_at = nowISO clk\<rparr>"
    by (simp add: postProcessAdmission_def Let_def)
  show "snd (postProcessAdmission clk rawData) =
     (if isValid (validateProcessedData (fst (postProcessAdmission clk rawData))) then []
      else [errors (validateProcessedData (fst (postProcessAdmission clk rawData)))])"
    by (simp add: postProcessAdmission_def Let_def)
  show "isValid (validateProcessedData d) \<longleftrightarrow>
     trim (name d) \<noteq> [] \<and> 0 \<le> age d \<and> age d \<le> 120 \<and> length (mobile_no d) = 10 \<and>
     (aadhaar_number d = [] \<or> length (stripSpaces (aadhaar_number d)) = 12) \<and>
     trim (admitted_under_doctor d) \<noteq> [] \<and> trim (ward d) \<noteq> [] \<and>
     trim (bed_number d) \<noteq> [] \<and> trim (reason d) \<noteq> []"
    by (rule isValid_iff)
next
  assume "trim (txAdmission st) \<noteq> [] \<and>
    postJSON ''/api/map/admission'' (combinedText (trim (txAdmission st)) (form st)) = Returns rawData"
  then show "form (mapAdmissionFromTranscript clk postJSON st) =
        mergeIfPresent (form st) (admissionPatch (fst (postProcessAdmission clk rawData)) (form st))"
    and "error (mapAdmissionFromTranscript clk postJSON st) = None"
    by (simp_all add: mapAdmissionFromTranscript_def Let_def)
qed

lemma sample_iso: "isoDate (todayDate sampleClock) = ''2026-11-02''"
  by code_simp

lemma sample_hm: "timeHM sampleClock = ''09:05''"
  by code_simp

theorem postProcessAdmission_validation_only_warns_witness:
  "age (fst (postProcessAdmission sampleClock (noFields\<lparr>raw_age := AgeNumber 200\<rparr>))) = 200 \<and>
   admission_date (fst (postProcessAdmission sampleClock (noFields\<lparr>raw_age := AgeNumber 200\<rparr>))) = ''2026-11-02'' \<and>
   snd (postProcessAdmission sampleClock (noFields\<lparr>raw_age := AgeNumber 200\<rparr>)) =
     [[''Patient name is required'', ''Age must be between 0 and 120'',
       ''Mobile number must be 10 digits'', ''Admitting doctor is required'',
       ''Ward is required'', ''Bed number is required'', ''Admission reason is required'']] \<and>
   trim ''age two hundred'' \<noteq> [] \<and>
   error (mapAdmissionFromTranscript sampleClock
            (\<lambda>url text. Returns (noFields\<lparr>raw_age := AgeNumber 200\<rparr>))
            \<lparr>form = emptyForm, txAdmission = ''age two hundred'', isMapping = False,
             error = None\<rparr>) = None \<and>
   form (mapAdmissionFromTranscript sampleClock
            (\<lambda>url text. Returns (noFields\<lparr>raw_age := AgeNumber 200\<rparr>))
            \<lparr>form = emptyForm, txAdmission = ''age two hundred'', isMapping = False,
             error = None\<rparr>) =
     mergeIfPresent emptyForm
       (admissionPatch (fst (postProcessAdmission sampleClock (noFields\<lparr>raw_age := AgeNumber 200\<rparr>)))
          emptyForm)"
proof -
  have n: "trim ''age two hundred'' \<noteq> []" by code_simp
  note t = postProcessAdmission_validation_only_warns
    [where clk = sampleClock and rawData = "noFields\<lparr>raw_age := AgeNumber 200\<rparr>"
       and d = "fst (postProcessAdmission sampleClock (noFields\<lparr>raw_age := AgeNumber 200\<rparr>))"
       and postJSON = "\<lambda>url text. Returns (noFields\<lparr>raw_age := AgeNumber 200\<rparr>)"
       and st = "\<lparr>form = emptyForm, txAdmission = ''age two hundred'', isMapping = False,
                 error = None\<rparr>"]
  have d: "normalizeDate sampleClock None = ''2026-11-02''"
    by (simp add: normalizeDate_def falsy_def sample_iso)
  have a: "age (fst (postProcessAdmission sampleClock (noFields\<lparr>raw_age := AgeNumber 200\<rparr>))) = 200"
    and b: "admission_date (fst (postProcessAdmission sampleClock (noFields\<lparr>raw_age := AgeNumber 200\<rparr>))) = ''2026-11-02''"
    using t [THEN conjunct1] by (simp_all add: noFields_def d)
  have c: "snd (postProcessAdmission sampleClock (noFields\<lparr>raw_age := AgeNumber 200\<rparr>)) =
     [[''Patient name is required'', ''Age must be between 0 and 120'',
       ''Mobile number must be 10 digits'', ''Admitting doctor is required'',
       ''Ward is required'', ''Bed number is required'', ''Admission reason is required'']]"
    using t [THEN conjunct1] t [THEN conjunct2, THEN conjunct1]
    by (simp add: noFields_def d trimOrEmpty_def normalizeMobileNumber_def normalizeAadhaarNumber_def
          falsy_def validateProcessedData_def missing_def Let_def)
  have e: "form (mapAdmissionFromTranscript sampleClock
            (\<lambda>url text. Returns (noFields\<lparr>raw_age := AgeNumber 200\<rparr>))
            \<lparr>form = emptyForm, txAdmission = ''age two hundred'', isMapping = False,
             error = None\<rparr>) =
     mergeIfPresent emptyForm
       (admissionPatch (fst (postProcessAdmission sampleClock (noFields\<lparr>raw_age := AgeNumber 200\<rparr>)))
          emptyForm) \<and>
     error (mapAdmissionFromTranscript sampleClock
            (\<lambda>url text. Returns (noFields\<lparr>raw_age := AgeNumber 200\<rparr>))
            \<lparr>form = emptyForm, txAdmission = ''age two hundred'', isMapping = False,
             error = None\<rparr>) = None"
    using t [THEN conjunct2, THEN conjunct2, THEN conjunct2] n by simp
  from a b c e n show ?thesis by simp
qed

subsection \<open>Defaults and the merge\<close>

lemma trim_eq_Nil_iff: "trim s = [] \<longleftrightarrow> (\<forall>c\<in>set s. isSpace c)"
proof
  assume "trim s = []"
  then have e: "dropWhile isSpace (rev (dropWhile isSpace s)) = []"
    by (simp add: trim_def)
  have "dropWhile isSpace s = []"
  proof (rule ccontr)
    assume n: "dropWhile isSpace s \<noteq> []"
    then have "\<not> isSpace (hd (dropWhile isSpace s))" by (rule hd_dropWhile)
    moreover have "hd (dropWhile isSpace s) \<in> set (rev (dropWhile isSpace s))"
      using n by simp
    ultimately show False using e by (auto simp: dropWhile_eq_Nil_conv)
  qed
  then show "\<forall>c\<in>set s. isSpace c" by (simp add: dropWhile_eq_Nil_conv)
next
  assume "\<forall>c\<in>set s. isSpace c"
  then show "trim s = []" by (auto simp: trim_def dest: set_dropWhileD)
qed

lemma trim_nonblank: "c \<in> set s \<Longrightarrow> \<not> isSpace c \<Longrightarrow> trim s \<noteq> []"
  by (auto simp: trim_eq_Nil_iff)

lemma dash_not_space: "\<not> isSpace CHR ''-''" and colon_not_space: "\<not> isSpace CHR '':''"
  by (simp_all add: isSpace_def)

lemma dash_in_isoDate: "CHR ''-'' \<in> set (isoDate d)"
  by (simp add: isoDate_def)

lemma colon_in_timeHM: "CHR '':'' \<in> set (timeHM clk)"
  by (simp add: timeHM_def)

lemma dash_in_iso:
  assumes "isIsoDate t"
  shows "CHR ''-'' \<in> set t"
proof -
  from assms have l: "4 < length t" and e: "t ! 4 = CHR ''-''" by (simp_all add: isIsoDate_def)
  from l have "t ! 4 \<in> set t" by (rule nth_mem)
  with e show ?thesis by simp
qed

lemma dash_in_normalizeDate: "CHR ''-'' \<in> set (normalizeDate clk date)"
proof (cases "falsy date")
  case True
  then show ?thesis by (simp add: normalizeDate_def dash_in_isoDate)
next
  case nf: False
  show ?thesis
  proof (cases "isIsoDate (trim (the date))")
    case True
    with nf show ?thesis by (simp add: normalizeDate_def dash_in_iso)
  next
    case ni: False
    show ?thesis
    proof (cases "isDmyDate (trim (the date))")
      case True
      with nf ni show ?thesis by (simp add: normalizeDate_def Let_def)
    next
      case False
      with nf ni show ?thesis by (simp add: normalizeDate_def Let_def dash_in_isoDate)
    qed
  qed
qed

lemma colon_in_normalizeTime: "CHR '':'' \<in> set (normalizeTime clk time)"
proof (cases "falsy time")
  case True
  then show ?thesis by (simp add: normalizeTime_def colon_in_timeHM)
next
  case nf: False
  show ?thesis
  proof (cases "isHMM (trim (the time))")
    case True
    with nf show ?thesis by (simp add: normalizeTime_def Let_def)
  next
    case False
    with nf show ?thesis
      by (simp add: normalizeTime_def Let_def colon_in_timeHM split: option.splits prod.splits)
  qed
qed

lemma normalizeGender_values:
  "normalizeGender g = ''male'' \<or> normalizeGender g = ''female'' \<or> normalizeGender g = ''other''"
  by (simp add: normalizeGender_def Let_def)

lemma mergeIfPresent_lookup:
  assumes "distinct (map fst patch)"
  shows "map_of (mergeIfPresent base patch) k =
     (case map_of patch k of
        None \<Rightarrow> map_of base k
      | Some v \<Rightarrow> if isPresent v then Some v else map_of base k)"
  using fold_merge_lookup [OF assms, of base k] by (simp add: mergeIfPresent_def)

lemma isPresent_JStr: "isPresent (JStr x) \<longleftrightarrow> trim x \<noteq> []"
  by (simp add: isPresent_def)

lemma admissionPatch_distinct: "distinct (map fst (admissionPatch p prev))"
  by (simp add: admissionPatch_def)

lemma admissionPatch_date:
  "map_of (admissionPatch p prev) ''admission_date'' = Some (JStr (admission_date p))"
  by (simp add: admissionPatch_def)

lemma admissionPatch_time:
  "map_of (admissionPatch p prev) ''admission_time'' = Some (JStr (admission_time p))"
  by (simp add: admissionPatch_def)

lemma admissionPatch_gender:
  "gender p \<noteq> [] \<Longrightarrow>
   map_of (admissionPatch p prev) ''gender'' = Some (JStr (capitalize (gender p)))"
  by (simp add: admissionPatch_def)

lemma capitalize_gender_nonblank: "trim (capitalize (normalizeGender g)) \<noteq> []"
proof -
  have "capitalize (normalizeGender g) = ''Male'' \<or> capitalize (normalizeGender g) = ''Female'' \<or>
        capitalize (normalizeGender g) = ''Other''"
  proof -
    have c: "capitalize ''male'' = ''Male''" "capitalize ''female'' = ''Female''"
      "capitalize ''other'' = ''Other''"
      by code_simp+
    show ?thesis using normalizeGender_values [of g] c by auto
  qed
  then show ?thesis by (auto simp: trim_eq_Nil_iff isSpace_def)
qed

lemma processed_fields:
  "admission_date (fst (postProcessAdmission clk raw)) = normalizeDate clk (raw_admission_date raw)"
  "admission_time (fst (postProcessAdmission clk raw)) = normalizeTime clk (raw_admission_time raw)"
  "gender (fst (postProcessAdmission clk raw)) = normalizeGender (raw_gender raw)"
  "status (fst (postProcessAdmission clk raw)) = ''admitted''"
  by (simp_all add: postProcessAdmission_def Let_def)

lemma form_after_mapping:
  assumes "trim (txAdmission st) \<noteq> []"
    and "postJSON ''/api/map/admission'' (combinedText (trim (txAdmission st)) (form st)) = Returns raw"
  shows "form (mapAdmissionFromTranscript clk postJSON st) =
     mergeIfPresent (form st) (admissionPatch (fst (postProcessAdmission clk raw)) (form st))"
  using assms by (simp add: mapAdmissionFromTranscript_def Let_def)

text \<open>
  C10. For every response of the mapper, the record that \<open>postProcessAdmission\<close>
  returns has a non-blank admission date and admission time, a gender among "male",
  "female" and "other", and the status "admitted": a missing value is replaced by
  today's date, the current time and "other". So the merge into the form overwrites
  the form's admission date, admission time and gender in every mapping pass, whatever
  the form held before and even when the response has none of the three.
\<close>

theorem mapping_overwrites_date_time_gender:
  assumes "trim (txAdmission st) \<noteq> []"
    and "postJSON ''/api/map/admission'' (combinedText (trim (txAdmission st)) (form st)) = Returns raw"
  shows "trim (admission_date (fst (postProcessAdmission clk raw))) \<noteq> [] \<and>
     trim (admission_time (fst (postProcessAdmission clk raw))) \<noteq> [] \<and>
     gender (fst (postProcessAdmission clk raw)) \<in> {''male'', ''female'', ''other''} \<and>
     status (fst (postProcessAdmission clk raw)) = ''admitted'' \<and>
     map_of (form (mapAdmissionFromTranscript clk postJSON st)) ''admission_date'' =
       Some (JStr (normalizeDate clk (raw_admission_date raw))) \<and>
     map_of (form (mapAdmissionFromTranscript clk postJSON st)) ''admission_time'' =
       Some (JStr (normalizeTime clk (raw_admission_time raw))) \<and>
     map_of (form (mapAdmissionFromTranscript clk postJSON st)) ''gender'' =
       Some (JStr (capitalize (normalizeGender (raw_gender raw)))) \<and>
     normalizeDate clk None = isoDate (todayDate clk) \<and>
     normalizeTime clk None = timeHM clk \<and>
     normalizeGender None = ''other''"
proof -
  let ?p = "fst (postProcessAdmission clk raw)"
  let ?patch = "admissionPatch ?p (form st)"
  have d: "trim (normalizeDate clk (raw_admission_date raw)) \<noteq> []"
    using dash_in_normalizeDate dash_not_space by (rule trim_nonblank)
  have t: "trim (normalizeTime clk (raw_admission_time raw)) \<noteq> []"
    using colon_in_normalizeTime colon_not_space by (rule trim_nonblank)
  have g: "normalizeGender (raw_gender raw) \<in> {''male'', ''female'', ''other''}"
    using normalizeGender_values [of "raw_gender raw"] by auto
  then have gne: "gender ?p \<noteq> []" by (auto simp: processed_fields)
  have f: "form (mapAdmissionFromTranscript clk postJSON st) = mergeIfPresent (form st) ?patch"
    using assms by (rule form_after_mapping)
  have fd: "map_of (form (mapAdmissionFromTranscript clk postJSON st)) ''admission_date'' =
       Some (JStr (normalizeDate clk (raw_admission_date raw)))"
    using d
    by (simp add: f mergeIfPresent_lookup [OF admissionPatch_distinct] admissionPatch_date
          isPresent_JStr processed_fields)
  have ft: "map_of (form (mapAdmissionFromTranscript clk postJSON st)) ''admission_time'' =
       Some (JStr (normalizeTime clk (raw_admission_time raw)))"
    using t
    by (simp add: f mergeIfPresent_lookup [OF admissionPatch_distinct] admissionPatch_time
          isPresent_JStr processed_fields)
  have fg: "map_of (form (mapAdmissionFromTranscript clk postJSON st)) ''gender'' =
       Some (JStr (capitalize (normalizeGender (raw_gender raw))))"
    using capitalize_gender_nonblank [of "raw_gender raw"]
    by (simp add: f mergeIfPresent_lookup [OF admissionPatch_distinct]
          admissionPatch_gender [OF gne] isPresent_JStr processed_fields)
  have dn: "normalizeDate clk None = isoDate (todayDate clk)"
    by (simp add: normalizeDate_def falsy_def)
  have tn: "normalizeTime clk None = timeHM clk"
    by (simp add: normalizeTime_def falsy_def)
  have gn: "normalizeGender None = ''other''"
    by (simp add: normalizeGender_def falsy_def)
  show ?thesis
    using d t g fd ft fg dn tn gn by (simp add: processed_fields)
qed

theorem mapping_overwrites_date_time_gender_witness:
  "trim ''patient is stable'' \<noteq> [] \<and>
   map_of (form (mapAdmissionFromTranscript sampleClock (\<lambda>url text. Returns noFields)
      \<lparr>form = [(''name'', JStr ''Asha''), (''age'', JStr ''45''), (''gender'', JStr ''Female''),
                (''mobile_no'', JStr []), (''aadhaar_number'', JStr []),
                (''admission_date'', JStr ''2020-01-01''), (''admission_time'', JStr ''10:00''),
                (''reason'', JStr ''fever'')],
       txAdmission = ''patient is stable'', isMapping = False, error = None\<rparr>)) ''admission_date''
     = Some (JStr ''2026-11-02'') \<and>
   map_of (form (mapAdmissionFromTranscript sampleClock (\<lambda>url text. Returns noFields)
      \<lparr>form = [(''name'', JStr ''Asha''), (''age'', JStr ''45''), (''gender'', JStr ''Female''),
                (''mobile_no'', JStr []), (''aadhaar_number'', JStr []),
                (''admission_date'', JStr ''2020-01-01''), (''admission_time'', JStr ''10:00''),
                (''reason'', JStr ''fever'')],
       txAdmission = ''patient is stable'', isMapping = False, error = None\<rparr>)) ''admission_time''
     = Some (JStr ''09:05'') \<and>
   map_of (form (mapAdmissionFromTranscript sampleClock (\<lambda>url text. Returns noFields)
      \<lparr>form = [(''name'', JStr ''Asha''), (''age'', JStr ''45''), (''gender'', JStr ''Female''),
                (''mobile_no'', JStr []), (''aadhaar_number'', JStr []),
                (''admission_date'', JStr ''2020-01-01''), (''admission_time'', JStr ''10:00''),
                (''reason'', JStr ''fever'')],
       txAdmission = ''patient is stable'', isMapping = False, error = None\<rparr>)) ''gender''
     = Some (JStr ''Other'')"
proof -
  let ?st = "\<lparr>form = [(''name'', JStr ''Asha''), (''age'', JStr ''45''), (''gender'', JStr ''Female''),
                (''mobile_no'', JStr []), (''aadhaar_number'', JStr []),
                (''admission_date'', JStr ''2020-01-01''), (''admission_time'', JStr ''10:00''),
                (''reason'', JStr ''fever'')],
       txAdmission = ''patient is stable'', isMapping = False, error = None\<rparr>"
  have a: "trim ''patient is stable'' \<noteq> []"
    by (rule trim_nonblank [of "CHR ''p''"]) (simp_all add: isSpace_def)
  then have a': "trim (txAdmission ?st) \<noteq> []" by simp
  have b: "(\<lambda>url text. Returns noFields) ''/api/map/admission''
             (combinedText (trim (txAdmission ?st)) (form ?st)) = Returns noFields"
    by simp
  note t = mapping_overwrites_date_time_gender [OF a' b, of sampleClock]
  have c: "capitalize ''other'' = ''Other''" by code_simp
  from t a show ?thesis
    by (simp add: noFields_def sample_iso sample_hm c)
qed

subsection \<open>Mapping failures on the handover page\<close>

lemma sample_trim:
  "trim ''Patient status is stable. Medications given. Pending labs.'' =
     ''Patient status is stable. Medications given. Pending labs.''"
  by code_simp

lemma sample_fallbacks:
  "fallbackStatus ''Patient status is stable. Medications given. Pending labs.'' = ''Patient status is stable''"
  "fallbackMeds ''Patient status is stable. Medications given. Pending labs.'' = ''Medications given''"
  "fallbackTasks ''Patient status is stable. Medications given. Pending labs.'' = ''Pending labs''"
  by code_simp+

lemma outgoing_throws:
  assumes "trim (txOutgoing st) \<noteq> []"
    and "postJSON ''/api/map/handover_outgoing'' (trim (txOutgoing st)) = Throws e"
  shows "mapOutgoingFromTranscript postJSON st =
           st\<lparr>toasts := toasts st @ [ToastError ''Failed to map outgoing data'']\<rparr>"
  using assms by (simp add: mapOutgoingFromTranscript_def Let_def)

lemma incoming_throws:
  assumes "trim (txIncoming st) \<noteq> []"
    and "postJSON ''/api/map/handover_incoming'' (trim (txIncoming st)) = Throws e"
  shows "mapIncomingFromTranscript postJSON st =
           st\<lparr>toasts := toasts st @ [ToastError (''Failed to map incoming data: '' @ e)]\<rparr>"
  using assms by (simp add: mapIncomingFromTranscript_def Let_def)

lemma outgoing_returns:
  assumes "trim (txOutgoing st) \<noteq> []"
    and "postJSON ''/api/map/handover_outgoing'' (trim (txOutgoing st)) = Returns m"
  shows "currentPatientStatus (formData (mapOutgoingFromTranscript postJSON st)) =
           orStr (optStr (optProp m patient_condition))
             (orStr (fallbackStatus (trim (txOutgoing st))) (currentPatientStatus (formData st)))"
    and "medsGiven (formData (mapOutgoingFromTranscript postJSON st)) =
           orStr (joinList (optProp m m_medications))
             (orStr (fallbackMeds (trim (txOutgoing st))) (medsGiven (formData st)))"
    and "medsDue (formData (mapOutgoingFromTranscript postJSON st)) =
           orStr (joinList (optProp m pending_tasks))
             (orStr (fallbackTasks (trim (txOutgoing st))) (medsDue (formData st)))"
    and "toasts (mapOutgoingFromTranscript postJSON st) = toasts st @ [ToastSuccess ''Outgoing mapped'']"
  using assms by (simp_all add: mapOutgoingFromTranscript_def Let_def)

text \<open>
  C2 as stated fails: when the call of the mapping endpoint throws, the handler does not
  fill the form from the regex extraction. On the sample page the three extractions find
  the status, the medications and the pending tasks in the transcript, yet after the
  failed call the three fields are still empty and an error toast is shown.
\<close>

theorem mapping_throw_no_fallback_counterexample:
  "currentPatientStatus (formData (mapOutgoingFromTranscript (\<lambda>url text. Throws ''Failed to fetch'') sampleHandover)) = [] \<and>
   medsGiven (formData (mapOutgoingFromTranscript (\<lambda>url text. Throws ''Failed to fetch'') sampleHandover)) = [] \<and>
   medsDue (formData (mapOutgoingFromTranscript (\<lambda>url text. Throws ''Failed to fetch'') sampleHandover)) = [] \<and>
   fallbackStatus (trim (txOutgoing sampleHandover)) = ''Patient status is stable'' \<and>
   fallbackMeds (trim (txOutgoing sampleHandover)) = ''Medications given'' \<and>
   fallbackTasks (trim (txOutgoing sampleHandover)) = ''Pending labs'' \<and>
   formData (mapOutgoingFromTranscript (\<lambda>url text. Throws ''Failed to fetch'') sampleHandover) =
     formData sampleHandover \<and>
   toasts (mapOutgoingFromTranscript (\<lambda>url text. Throws ''Failed to fetch'') sampleHandover) =
     [ToastError ''Failed to map outgoing data'']"
  by (simp add: sampleHandover_def mapOutgoingFromTranscript_def sample_trim sample_fallbacks
        initialData_def)

text \<open>
  C2, amended. For every non-empty transcript, a call of the mapping endpoint that throws
  leaves the state of the page as it was but for one error toast ("Failed to map outgoing
  data", "Failed to map incoming data: " and the message); nothing is filled in. The
  regex extraction over the transcript is used when the call returns: for an empty
  response the outgoing handler sets status, medications given and medications due to
  the extracted text, or keeps the old value where the extraction finds nothing.
\<close>

theorem mapping_failure_shows_toast_keeps_form:
  "(trim (txOutgoing st) \<noteq> [] \<and>
    postOut ''/api/map/handover_outgoing'' (trim (txOutgoing st)) = Throws e \<longrightarrow>
      mapOutgoingFromTranscript postOut st =
        st\<lparr>toasts := toasts st @ [ToastError ''Failed to map outgoing data'']\<rparr>) \<and>
   (trim (txIncoming st) \<noteq> [] \<and>
    postIn ''/api/map/handover_incoming'' (trim (txIncoming st)) = Throws e \<longrightarrow>
      mapIncomingFromTranscript postIn st =
        st\<lparr>toasts := toasts st @ [ToastError (''Failed to map incoming data: '' @ e)]\<rparr>) \<and>
   (trim (txOutgoing st) \<noteq> [] \<and>
    postEmpty ''/api/map/handover_outgoing'' (trim (txOutgoing st)) = Returns None \<longrightarrow>
      currentPatientStatus (formData (mapOutgoingFromTranscript postEmpty st)) =
        orStr (fallbackStatus (trim (txOutgoing st))) (currentPatientStatus (formData st)) \<and>
      medsGiven (formData (mapOutgoingFromTranscript postEmpty st)) =
        orStr (fallbackMeds (trim (txOutgoing st))) (medsGiven (formData st)) \<and>
      medsDue (formData (mapOutgoingFromTranscript postEmpty st)) =
        orStr (fallbackTasks (trim (txOutgoing st))) (medsDue (formData st)) \<and>
      toasts (mapOutgoingFromTranscript postEmpty st) =
        toasts st @ [ToastSuccess ''Outgoing mapped''])"
proof (intro conjI impI)
  assume "trim (txOutgoing st) \<noteq> [] \<and>
    postOut ''/api/map/handover_outgoing'' (trim (txOutgoing st)) = Throws e"
  then show "mapOutgoingFromTranscript postOut st =
        st\<lparr>toasts := toasts st @ [ToastError ''Failed to map outgoing data'']\<rparr>"
    using outgoing_throws [of st postOut e] by simp
next
  assume "trim (txIncoming st) \<noteq> [] \<and>
    postIn ''/api/map/handover_incoming'' (trim (txIncoming st)) = Throws e"
  then show "mapIncomingFromTranscript postIn st =
        st\<lparr>toasts := toasts st @ [ToastError (''Failed to map incoming data: '' @ e)]\<rparr>"
    using incoming_throws [of st postIn e] by simp
next
  assume h: "trim (txOutgoing st) \<noteq> [] \<and>
    postEmpty ''/api/map/handover_outgoing'' (trim (txOutgoing st)) = Returns None"
  then have a: "trim (txOutgoing st) \<noteq> []"
    and b: "postEmpty ''/api/map/handover_outgoing'' (trim (txOutgoing st)) = Returns None"
    by simp_all
  note r = outgoing_returns [where st = st and postJSON = postEmpty and m = None, OF a b]
  have z: "optStr (optProp None f) = []" "joinList (optProp None g) = []" "orStr [] x = x" for f g x
    by (simp_all add: optStr_def optProp_def joinList_def orStr_def)
  show "currentPatientStatus (formData (mapOutgoingFromTranscript postEmpty st)) =
        orStr (fallbackStatus (trim (txOutgoing st))) (currentPatientStatus (formData st))"
    by (simp add: r(1) z)
  show "medsGiven (formData (mapOutgoingFromTranscript postEmpty st)) =
        orStr (fallbackMeds (trim (txOutgoing st))) (medsGiven (formData st))"
    by (simp add: r(2) z)
  show "medsDue (formData (mapOutgoingFromTranscript postEmpty st)) =
        orStr (fallbackTasks (trim (txOutgoing st))) (medsDue (formData st))"
    by (simp add: r(3) z)
  show "toasts (mapOutgoingFromTranscript postEmpty st) =
        toasts st @ [ToastSuccess ''Outgoing mapped'']"
    by (rule r(4))
qed

theorem mapping_failure_shows_toast_keeps_form_witness:
  "trim (txOutgoing sampleHandover) \<noteq> [] \<and> trim (txIncoming sampleHandover) \<noteq> [] \<and>
   mapOutgoingFromTranscript (\<lambda>url text. Throws ''Failed to fetch'') sampleHandover =
     sampleHandover\<lparr>toasts := [ToastError ''Failed to map outgoing data'']\<rparr> \<and>
   mapIncomingFromTranscript (\<lambda>url text. Throws ''Failed to fetch'') sampleHandover =
     sampleHandover\<lparr>toasts := [ToastError ''Failed to map incoming data: Failed to fetch'']\<rparr> \<and>
   currentPatientStatus (formData (mapOutgoingFromTranscript (\<lambda>url text. Returns None) sampleHandover)) =
     ''Patient status is stable'' \<and>
   medsGiven (formData (mapOutgoingFromTranscript (\<lambda>url text. Returns None) sampleHandover)) =
     ''Medications given'' \<and>
   medsDue (formData (mapOutgoingFromTranscript (\<lambda>url text. Returns None) sampleHandover)) =
     ''Pending labs''"
proof -
  have a: "trim (txOutgoing sampleHandover) \<noteq> []"
    by (simp add: sampleHandover_def sample_trim)
  have b: "trim (txIncoming sampleHandover) \<noteq> []"
    unfolding sampleHandover_def by (rule trim_nonblank [of "CHR ''v''"]) (simp_all add: isSpace_def)
  have t: "toasts sampleHandover = []" by (simp add: sampleHandover_def)
  have o: "trim (txOutgoing sampleHandover) =
      ''Patient status is stable. Medications given. Pending labs.''"
    by (simp add: sampleHandover_def sample_trim)
  have f: "currentPatientStatus (formData sampleHandover) = []"
    "medsGiven (formData sampleHandover) = []" "medsDue (formData sampleHandover) = []"
    by (simp_all add: sampleHandover_def initialData_def)
  note th = mapping_failure_shows_toast_keeps_form
    [where st = sampleHandover and e = "''Failed to fetch''"
       and postOut = "\<lambda>url text. Throws ''Failed to fetch''"
       and postIn = "\<lambda>url text. Throws ''Failed to fetch''"
       and postEmpty = "\<lambda>url text. Returns None"]
  from th a b show ?thesis
    by (simp add: t o f sample_fallbacks orStr_def)
qed

subsection \<open>Splitting at separators\<close>

lemma splitOn_not_Nil: "splitOn P s \<noteq> []"
  by (induction s) (auto split: list.splits)

lemma splitOn_no_sep: "\<forall>c\<in>set a. \<not> P c \<Longrightarrow> splitOn P a = [a]"
  by (induction a) auto

lemma splitOn_append_sep:
  "\<forall>c\<in>set a. \<not> P c \<Longrightarrow> P x \<Longrightarrow> splitOn P (a @ x # rest) = a # splitOn P rest"
  by (induction a) auto

lemma splitOn_single: "splitOn P s = [a] \<Longrightarrow> s = a \<and> (\<forall>c\<in>set a. \<not> P c)"
proof (induction s arbitrary: a)
  case Nil
  then show ?case by simp
next
  case (Cons c cs)
  show ?case
  proof (cases "P c")
    case True
    with Cons.prems show ?thesis by (simp add: splitOn_not_Nil)
  next
    case False
    with Cons.prems obtain p where p: "splitOn P cs = [p]" and a: "a = c # p"
      by (auto simp: splitOn_not_Nil split: list.splits)
    from Cons.IH [OF p] a False show ?thesis by simp
  qed
qed

lemma splitOn_Cons2:
  "splitOn P s = a # b # rest \<Longrightarrow>
   \<exists>x s'. P x \<and> s = a @ x # s' \<and> splitOn P s' = b # rest \<and> (\<forall>c\<in>set a. \<not> P c)"
proof (induction s arbitrary: a)
  case Nil
  then show ?case by simp
next
  case (Cons c cs)
  show ?case
  proof (cases "P c")
    case True
    with Cons.prems have "a = []" and "splitOn P cs = b # rest" by simp_all
    with True show ?thesis by auto
  next
    case False
    with Cons.prems obtain p where p: "splitOn P cs = p # b # rest" and a: "a = c # p"
      by (auto simp: splitOn_not_Nil split: list.splits)
    from Cons.IH [OF p] obtain x s' where
      "P x" "cs = p @ x # s'" "splitOn P s' = b # rest" "\<forall>c\<in>set p. \<not> P c" by blast
    with a False show ?thesis by auto
  qed
qed

lemma digit_not_sep: "isDigit c \<Longrightarrow> \<not> isDateSep c"
  by (auto simp: isDigit_def isDateSep_def)

lemma digit_not_colon: "isDigit c \<Longrightarrow> \<not> isColon c"
  by (auto simp: isDigit_def isColon_def)

lemma allDigits_no_sep: "allDigits a \<Longrightarrow> \<forall>c\<in>set a. \<not> isDateSep c"
  by (auto simp: allDigits_def list_all_iff digit_not_sep)

lemma allDigits_no_colon: "allDigits a \<Longrightarrow> \<forall>c\<in>set a. \<not> isColon c"
  by (auto simp: allDigits_def list_all_iff digit_not_colon)

lemma splitOn_dmy:
  assumes "allDigits d" "allDigits m" "allDigits y" "isDateSep s1" "isDateSep s2"
  shows "splitOn isDateSep (d @ s1 # m @ s2 # y) = [d, m, y]"
proof -
  have "splitOn isDateSep (d @ s1 # m @ s2 # y) = d # splitOn isDateSep (m @ s2 # y)"
    using allDigits_no_sep [OF assms(1)] assms(4) by (rule splitOn_append_sep)
  also have "splitOn isDateSep (m @ s2 # y) = m # splitOn isDateSep y"
    using allDigits_no_sep [OF assms(2)] assms(5) by (rule splitOn_append_sep)
  also have "splitOn isDateSep y = [y]"
    using allDigits_no_sep [OF assms(3)] by (rule splitOn_no_sep)
  finally show ?thesis .
qed

lemma splitOn_hm:
  assumes "allDigits h" "allDigits m"
  shows "splitOn isColon (h @ CHR '':'' # m) = [h, m]"
proof -
  have c: "isColon CHR '':''" by (simp add: isColon_def)
  have "splitOn isColon (h @ CHR '':'' # m) = h # splitOn isColon m"
    using allDigits_no_colon [OF assms(1)] c by (rule splitOn_append_sep)
  also have "splitOn isColon m = [m]"
    using allDigits_no_colon [OF assms(2)] by (rule splitOn_no_sep)
  finally show ?thesis .
qed

subsection \<open>The patterns and the shapes\<close>

lemma isIsoDate_iff: "isIsoDate s \<longleftrightarrow> isoForm s"
proof
  assume i: "isIsoDate s"
  then have len: "length s = 10" and d4: "s ! 4 = CHR ''-''" and d7: "s ! 7 = CHR ''-''"
    and y: "allDigits (take 4 s)" and m: "allDigits (take 2 (drop 5 s))" and d: "allDigits (drop 8 s)"
    by (simp_all add: isIsoDate_def)
  have "s = take 4 s @ s ! 4 # drop 5 s"
    using id_take_nth_drop [of 4 s] len by simp
  moreover have "drop 5 s = take 2 (drop 5 s) @ drop 5 s ! 2 # drop 3 (drop 5 s)"
    using id_take_nth_drop [of 2 "drop 5 s"] len by simp
  moreover have "drop 5 s ! 2 = s ! 7" using len by simp
  moreover have "drop 3 (drop 5 s) = drop 8 s" by simp
  ultimately have "s = take 4 s @ ''-'' @ take 2 (drop 5 s) @ ''-'' @ drop 8 s"
    using d4 d7 by simp
  moreover have "length (take 4 s) = 4" "length (take 2 (drop 5 s)) = 2" "length (drop 8 s) = 2"
    using len by simp_all
  ultimately show "isoForm s"
    unfolding isoForm_def using y m d by blast
next
  assume "isoForm s"
  then obtain y m d where s: "s = y @ ''-'' @ m @ ''-'' @ d"
    and y: "allDigits y" "length y = 4" and m: "allDigits m" "length m = 2"
    and d: "allDigits d" "length d = 2"
    unfolding isoForm_def by blast
  show "isIsoDate s"
    using y m d by (simp add: isIsoDate_def s nth_append)
qed

lemma isDmyDate_iff: "isDmyDate s \<longleftrightarrow> dmyForm s"
proof
  assume i: "isDmyDate s"
  then obtain d m y where sp: "splitOn isDateSep s = [d, m, y]"
    and c: "allDigits d" "1 \<le> length d" "length d \<le> 2"
           "allDigits m" "1 \<le> length m" "length m \<le> 2"
           "allDigits y" "2 \<le> length y" "length y \<le> 4"
    by (auto simp: isDmyDate_def split: list.splits)
  from splitOn_Cons2 [OF sp] obtain s1 r1 where
    s1: "isDateSep s1" "s = d @ s1 # r1" "splitOn isDateSep r1 = [m, y]" by blast
  from splitOn_Cons2 [OF s1(3)] obtain s2 r2 where
    s2: "isDateSep s2" "r1 = m @ s2 # r2" "splitOn isDateSep r2 = [y]" by blast
  from splitOn_single [OF s2(3)] have "r2 = y" by simp
  with s1 s2 have "s = d @ [s1] @ m @ [s2] @ y" by simp
  with s1(1) s2(1) c show "dmyForm s" unfolding dmyForm_def by blast
next
  assume "dmyForm s"
  then obtain d m y s1 s2 where s: "s = d @ [s1] @ m @ [s2] @ y"
    and sep: "isDateSep s1" "isDateSep s2"
    and c: "allDigits d" "1 \<le> length d" "length d \<le> 2"
           "allDigits m" "1 \<le> length m" "length m \<le> 2"
           "allDigits y" "2 \<le> length y" "length y \<le> 4"
    unfolding dmyForm_def by blast
  have "splitOn isDateSep s = [d, m, y]"
    using splitOn_dmy [OF c(1) c(4) c(7) sep] s by simp
  with c show "isDmyDate s" by (simp add: isDmyDate_def)
qed

lemma isHMM_iff: "isHMM s \<longleftrightarrow> hmmForm s"
proof
  assume "isHMM s"
  then obtain h m where sp: "splitOn isColon s = [h, m]"
    and c: "allDigits h" "1 \<le> length h" "length h \<le> 2" "allDigits m" "length m = 2"
    by (auto simp: isHMM_def split: list.splits)
  from splitOn_Cons2 [OF sp] obtain x r where
    x: "isColon x" "s = h @ x # r" "splitOn isColon r = [m]" by blast
  from splitOn_single [OF x(3)] have "r = m" by simp
  with x have "s = h @ '':'' @ m" by (simp add: isColon_def)
  with c show "hmmForm s" unfolding hmmForm_def by blast
next
  assume "hmmForm s"
  then obtain h m where s: "s = h @ '':'' @ m"
    and c: "allDigits h" "1 \<le> length h" "length h \<le> 2" "allDigits m" "length m = 2"
    unfolding hmmForm_def by blast
  have "splitOn isColon s = [h, m]" using splitOn_hm [OF c(1) c(4)] s by simp
  with c show "isHMM s" by (simp add: isHMM_def)
qed

subsection \<open>Trimming and lowercasing\<close>

lemma lowerChar_space: "isSpace c \<Longrightarrow> lowerChar c = c"
  by (auto simp: isSpace_def lowerChar_def Let_def)

lemma isSpace_lowerChar: "isSpace (lowerChar c) = isSpace c"
  by (auto simp: isSpace_def lowerChar_def Let_def)

lemma toLowerCase_trim: "toLowerCase (trim s) = trim (toLowerCase s)"
proof -
  have c: "isSpace \<circ> lowerChar = isSpace" by (rule ext) (simp add: isSpace_lowerChar)
  show ?thesis
    by (simp add: toLowerCase_def trim_def rev_map dropWhile_map c)
qed

lemma trim_id:
  assumes "s \<noteq> []" and "\<not> isSpace (hd s)" and "\<not> isSpace (last s)"
  shows "trim s = s"
proof -
  have 1: "dropWhile isSpace s = s" using assms(1,2) by (cases s) auto
  have "rev s \<noteq> []" and "\<not> isSpace (hd (rev s))" using assms(1,3) by (simp_all add: hd_rev)
  then have 2: "dropWhile isSpace (rev s) = rev s" by (cases "rev s") auto
  show ?thesis by (simp add: trim_def 1 2)
qed

lemma digit_not_space: "isDigit c \<Longrightarrow> \<not> isSpace c"
  by (auto simp: isDigit_def isSpace_def)

lemma allDigits_hd: "allDigits a \<Longrightarrow> a \<noteq> [] \<Longrightarrow> isDigit (hd a)"
  by (cases a) (simp_all add: allDigits_def)

lemma allDigits_last: "allDigits a \<Longrightarrow> a \<noteq> [] \<Longrightarrow> isDigit (last a)"
  by (simp add: allDigits_def list_all_iff)

lemma trim_digits_ends:
  assumes "allDigits a" "a \<noteq> []" "allDigits b" "b \<noteq> []"
  shows "trim (a @ mid @ b) = a @ mid @ b"
proof (rule trim_id)
  show "a @ mid @ b \<noteq> []" using assms(2) by simp
  show "\<not> isSpace (hd (a @ mid @ b))"
    using assms(1,2) by (simp add: digit_not_space allDigits_hd)
  show "\<not> isSpace (last (a @ mid @ b))"
    using assms(3,4) by (simp add: digit_not_space allDigits_last)
qed

lemma includes_hd: "includes_str s (k # ks) \<Longrightarrow> k \<in> set s"
  by (auto simp: includes_iff)

lemma includes_lower_trim:
  assumes "kw \<noteq> []" and "\<not> isSpace (hd kw)" and "\<not> isSpace (last kw)"
  shows "includes_str (toLowerCase (trim s)) kw \<longleftrightarrow> includes_str (toLowerCase s) kw"
  using assms by (simp add: toLowerCase_trim includes_trim)

subsection \<open>Dates\<close>

lemma lowerChar_digit: "isDigit c \<Longrightarrow> lowerChar c = c"
  by (auto simp: isDigit_def lowerChar_def Let_def)

lemma lowerChar_sep: "isDateSep c \<Longrightarrow> lowerChar c = c"
  by (auto simp: isDateSep_def lowerChar_def Let_def)

lemma allDigits_set: "allDigits a \<Longrightarrow> c \<in> set a \<Longrightarrow> isDigit c"
  by (simp add: allDigits_def list_all_iff)

lemma date_form_chars:
  assumes "isoForm t \<or> dmyForm t" and "c \<in> set t"
  shows "isDigit c \<or> isDateSep c"
  using assms unfolding isoForm_def dmyForm_def
  by (auto simp: isDateSep_def dest: allDigits_set)

lemma date_form_no_keyword:
  assumes "isoForm t \<or> dmyForm t" and "\<not> isDigit k" and "\<not> isDateSep k"
  shows "\<not> includes_str (toLowerCase t) (k # ks)"
proof
  assume "includes_str (toLowerCase t) (k # ks)"
  then have "k \<in> set (toLowerCase t)" by (rule includes_hd)
  then obtain c where c: "c \<in> set t" "lowerChar c = k" by (auto simp: toLowerCase_def)
  from date_form_chars [OF assms(1) c(1)] have "lowerChar c = c"
    by (auto simp: lowerChar_digit lowerChar_sep)
  with c date_form_chars [OF assms(1) c(1)] assms(2,3) show False by auto
qed

lemma iso_split:
  assumes "isoForm t"
  shows "\<exists>y m d. splitOn isDateSep t = [y, m, d] \<and> length y = 4"
proof -
  from assms obtain y m d where t: "t = y @ CHR ''-'' # m @ CHR ''-'' # d"
    and c: "allDigits y" "length y = 4" "allDigits m" "allDigits d"
    unfolding isoForm_def by auto
  have s: "isDateSep CHR ''-''" by (simp add: isDateSep_def)
  have "splitOn isDateSep t = [y, m, d]"
    unfolding t using c(1,3,4) s s by (rule splitOn_dmy)
  with c(2) show ?thesis by blast
qed

lemma dmy_not_iso: "dmyForm t \<Longrightarrow> \<not> isoForm t"
proof
  assume d: "dmyForm t" and i: "isoForm t"
  from d obtain d m y s1 s2 where t: "t = d @ s1 # m @ s2 # y"
    and sep: "isDateSep s1" "isDateSep s2"
    and c: "allDigits d" "length d \<le> 2" "allDigits m" "allDigits y"
    unfolding dmyForm_def by auto
  have "splitOn isDateSep t = [d, m, y]"
    unfolding t using c(1,3,4) sep by (rule splitOn_dmy)
  with iso_split [OF i] c(2) show False by auto
qed

lemma normalizeDate_iso:
  assumes "isoForm (trim s)"
  shows "normalizeDate clk (Some s) = trim s"
proof -
  from assms have "trim s \<noteq> []" by (auto simp: isoForm_def)
  then have "s \<noteq> []" by auto
  with assms show ?thesis
    by (simp add: normalizeDate_def falsy_def isIsoDate_iff)
qed

lemma normalizeDate_dmy:
  assumes t: "trim s = d @ [s1] @ m @ [s2] @ y"
    and sep: "isDateSep s1" "isDateSep s2"
    and c: "allDigits d" "1 \<le> length d" "length d \<le> 2"
           "allDigits m" "1 \<le> length m" "length m \<le> 2"
           "allDigits y" "2 \<le> length y" "length y \<le> 4"
  shows "normalizeDate clk (Some s) =
           (if length y = 2 then ''20'' @ y else y) @ ''-'' @
           padStart 2 CHR ''0'' m @ ''-'' @ padStart 2 CHR ''0'' d"
proof -
  have f: "dmyForm (trim s)" unfolding dmyForm_def using t sep c by blast
  then have ni: "\<not> isIsoDate (trim s)" by (simp add: isIsoDate_iff dmy_not_iso)
  from t c(2) have "s \<noteq> []" by auto
  have sp: "splitOn isDateSep (trim s) = [d, m, y]"
    using splitOn_dmy [OF c(1) c(4) c(7) sep] t by simp
  show ?thesis
    using \<open>s \<noteq> []\<close> ni f
    by (simp add: normalizeDate_def falsy_def isDmyDate_iff sp Let_def)
qed

lemma normalizeDate_other:
  assumes "\<not> isoForm (trim s)" and "\<not> dmyForm (trim s)"
  shows "normalizeDate clk (Some s) =
     (if includes_str (toLowerCase s) ''today'' then isoDate (todayDate clk)
      else if includes_str (toLowerCase s) ''tomorrow'' then isoDate (tomorrowDate clk)
      else if includes_str (toLowerCase s) ''yesterday'' then isoDate (yesterdayDate clk)
      else isoDate (todayDate clk))"
proof (cases "s = []")
  case True
  then show ?thesis by (simp add: normalizeDate_def falsy_def toLowerCase_def)
next
  case False
  have k: "includes_str (toLowerCase (trim s)) ''today'' = includes_str (toLowerCase s) ''today''"
    "includes_str (toLowerCase (trim s)) ''tomorrow'' = includes_str (toLowerCase s) ''tomorrow''"
    "includes_str (toLowerCase (trim s)) ''yesterday'' = includes_str (toLowerCase s) ''yesterday''"
    by (rule includes_lower_trim; simp add: isSpace_def)+
  show ?thesis
    using False assms
    by (simp add: normalizeDate_def falsy_def isIsoDate_iff isDmyDate_iff Let_def k)
qed

lemma keyword_not_date_form:
  assumes "includes_str (toLowerCase s) (k # ks)" and "\<not> isDigit k" and "\<not> isDateSep k"
    and "\<not> isSpace k" and "\<not> isSpace (last (k # ks))"
  shows "\<not> isoForm (trim s) \<and> \<not> dmyForm (trim s)"
proof -
  have "includes_str (toLowerCase (trim s)) (k # ks)"
    using assms(1,4,5) includes_lower_trim [of "k # ks" s] by simp
  then show ?thesis
    using date_form_no_keyword [of "trim s" k ks] assms(2,3) by blast
qed

lemma zero_digit: "isDigit CHR ''0''" and two_digit: "isDigit CHR ''2''"
  by (simp_all add: isDigit_def)

lemma padStart_two_digits:
  assumes "allDigits m" "1 \<le> length m" "length m \<le> 2"
  shows "allDigits (padStart 2 CHR ''0'' m) \<and> length (padStart 2 CHR ''0'' m) = 2"
proof -
  from assms(2,3) consider "length m = 1" | "length m = 2" by linarith
  then show ?thesis
  proof cases
    case 1
    then have "padStart 2 CHR ''0'' m = CHR ''0'' # m" by (simp add: padStart_def)
    with 1 assms(1) zero_digit show ?thesis by (simp add: allDigits_def)
  next
    case 2
    then have "padStart 2 CHR ''0'' m = m" by (simp add: padStart_def)
    with 2 assms(1) show ?thesis by simp
  qed
qed

lemma reordered_is_iso:
  assumes "allDigits d" "1 \<le> length d" "length d \<le> 2"
    and "allDigits m" "1 \<le> length m" "length m \<le> 2"
    and "allDigits y" "length y = 2 \<or> length y = 4"
  shows "isoForm ((if length y = 2 then ''20'' @ y else y) @ ''-'' @
                  padStart 2 CHR ''0'' m @ ''-'' @ padStart 2 CHR ''0'' d)"
proof -
  let ?y = "if length y = 2 then ''20'' @ y else y"
  have y: "allDigits ?y" "length ?y = 4"
    using assms(7,8) zero_digit two_digit by (auto simp: allDigits_def)
  from padStart_two_digits [OF assms(4,5,6)] padStart_two_digits [OF assms(1,2,3)] y
  show ?thesis unfolding isoForm_def by blast
qed

lemma normalizeDate_iso_unchanged:
  assumes "isoForm s"
  shows "normalizeDate clk (Some s) = s"
proof -
  from assms obtain y m d where s: "s = y @ (''-'' @ m @ ''-'') @ d"
    and c: "allDigits y" "length y = 4" "allDigits d" "length d = 2"
    unfolding isoForm_def by auto
  from c have "y \<noteq> []" "d \<noteq> []" by auto
  with c have "trim (y @ (''-'' @ m @ ''-'') @ d) = y @ (''-'' @ m @ ''-'') @ d"
    by (intro trim_digits_ends)
  then have "trim s = s" by (simp only: s)
  with assms normalizeDate_iso [of s clk] show ?thesis by simp
qed

text \<open>
  C5 as stated fails on "every other input gives today's date": an input with a
  three-digit year, and one with two different separators, are in none of the shapes the
  claim lists and hold none of the three words, yet the result is not today's date. On
  the three-digit year the result is not a date of the form \<open>YYYY-MM-DD\<close> at all.
\<close>

theorem normalizeDate_other_inputs_counterexample:
  "normalizeDate sampleClock (Some ''1-2-123'') = ''123-02-01'' \<and>
   normalizeDate sampleClock (Some ''25-12/2024'') = ''2024-12-25'' \<and>
   isoDate (todayDate sampleClock) = ''2026-11-02'' \<and>
   normalizeDate sampleClock (Some ''1-2-123'') \<noteq> isoDate (todayDate sampleClock) \<and>
   normalizeDate sampleClock (Some ''25-12/2024'') \<noteq> isoDate (todayDate sampleClock) \<and>
   \<not> isoForm (normalizeDate sampleClock (Some ''1-2-123''))"
proof -
  have a: "normalizeDate sampleClock (Some ''1-2-123'') = ''123-02-01''"
    and b: "normalizeDate sampleClock (Some ''25-12/2024'') = ''2024-12-25''"
    by code_simp+
  have c: "\<not> isoForm ''123-02-01''"
    unfolding isIsoDate_iff [symmetric] by code_simp
  show ?thesis by (simp add: a b c sample_iso)
qed

text \<open>
  C5, amended. For every input string, with white space around it trimmed: a string of
  the form \<open>YYYY-MM-DD\<close> is returned as it is (an input already of that form unchanged);
  day, month and year of one or two, one or two, and two or four digits, each followed
  by a separator \<^verbatim>\<open>-\<close> or \<^verbatim>\<open>/\<close> that need not be the same twice, are reordered and
  zero-padded into \<open>YYYY-MM-DD\<close>, a two-digit year \<open>YY\<close> becoming \<open>20YY\<close>; an input
  that contains "today", else "tomorrow", else "yesterday" in any case gives today's,
  tomorrow's or yesterday's date; and every input that is of neither form (the year
  counted from two to four digits) and contains none of the words gives today's date.
  No input raises an error.
\<close>

theorem normalizeDate_shapes:
  "(isoForm s \<longrightarrow> normalizeDate clk (Some s) = s) \<and>
   (isoForm (trim s) \<longrightarrow> normalizeDate clk (Some s) = trim s) \<and>
   (trim s = d @ [s1] @ m @ [s2] @ y \<and> isDateSep s1 \<and> isDateSep s2 \<and>
    allDigits d \<and> 1 \<le> length d \<and> length d \<le> 2 \<and>
    allDigits m \<and> 1 \<le> length m \<and> length m \<le> 2 \<and>
    allDigits y \<and> (length y = 2 \<or> length y = 4) \<longrightarrow>
      normalizeDate clk (Some s) =
        (if length y = 2 then ''20'' @ y else y) @ ''-'' @
        padStart 2 CHR ''0'' m @ ''-'' @ padStart 2 CHR ''0'' d \<and>
      isoForm (normalizeDate clk (Some s))) \<and>
   (includes_str (toLowerCase s) ''today'' \<longrightarrow>
      normalizeDate clk (Some s) = isoDate (todayDate clk)) \<and>
   (\<not> includes_str (toLowerCase s) ''today'' \<and> includes_str (toLowerCase s) ''tomorrow'' \<longrightarrow>
      normalizeDate clk (Some s) = isoDate (tomorrowDate clk)) \<and>
   (\<not> includes_str (toLowerCase s) ''today'' \<and> \<not> includes_str (toLowerCase s) ''tomorrow'' \<and>
    includes_str (toLowerCase s) ''yesterday'' \<longrightarrow>
      normalizeDate clk (Some s) = isoDate (yesterdayDate clk)) \<and>
   (\<not> isoForm (trim s) \<and> \<not> dmyForm (trim s) \<and>
    \<not> includes_str (toLowerCase s) ''tomorrow'' \<and> \<not> includes_str (toLowerCase s) ''yesterday'' \<longrightarrow>
      normalizeDate clk (Some s) = isoDate (todayDate clk))"
proof (intro conjI impI)
  assume "isoForm s"
  then show "normalizeDate clk (Some s) = s" by (rule normalizeDate_iso_unchanged)
next
  assume "isoForm (trim s)"
  then show "normalizeDate clk (Some s) = trim s" by (rule normalizeDate_iso)
next
  assume h: "trim s = d @ [s1] @ m @ [s2] @ y \<and> isDateSep s1 \<and> isDateSep s2 \<and>
    allDigits d \<and> 1 \<le> length d \<and> length d \<le> 2 \<and>
    allDigits m \<and> 1 \<le> length m \<and> length m \<le> 2 \<and>
    allDigits y \<and> (length y = 2 \<or> length y = 4)"
  then have t: "trim s = d @ [s1] @ m @ [s2] @ y" and sep: "isDateSep s1" "isDateSep s2"
    and cd: "allDigits d" "1 \<le> length d" "length d \<le> 2"
    and cm: "allDigits m" "1 \<le> length m" "length m \<le> 2"
    and cy: "allDigits y" "length y = 2 \<or> length y = 4"
    by simp_all
  from cy(2) have y: "2 \<le> length y" "length y \<le> 4" by auto
  have r: "normalizeDate clk (Some s) =
        (if length y = 2 then ''20'' @ y else y) @ ''-'' @
        padStart 2 CHR ''0'' m @ ''-'' @ padStart 2 CHR ''0'' d"
    using t sep cd cm cy(1) y by (rule normalizeDate_dmy)
  show "normalizeDate clk (Some s) =
        (if length y = 2 then ''20'' @ y else y) @ ''-'' @
        padStart 2 CHR ''0'' m @ ''-'' @ padStart 2 CHR ''0'' d"
    by (rule r)
  show "isoForm (normalizeDate clk (Some s))"
    unfolding r using cd cm cy by (rule reordered_is_iso)
next
  assume k: "includes_str (toLowerCase s) ''today''"
  then have "\<not> isoForm (trim s) \<and> \<not> dmyForm (trim s)"
    by (rule keyword_not_date_form) (simp_all add: isDigit_def isDateSep_def isSpace_def)
  with k show "normalizeDate clk (Some s) = isoDate (todayDate clk)"
    by (simp add: normalizeDate_other)
next
  assume k: "\<not> includes_str (toLowerCase s) ''today'' \<and> includes_str (toLowerCase s) ''tomorrow''"
  then have "includes_str (toLowerCase s) ''tomorrow''" by simp
  then have "\<not> isoForm (trim s) \<and> \<not> dmyForm (trim s)"
    by (rule keyword_not_date_form) (simp_all add: isDigit_def isDateSep_def isSpace_def)
  with k show "normalizeDate clk (Some s) = isoDate (tomorrowDate clk)"
    by (simp add: normalizeDate_other)
next
  assume k: "\<not> includes_str (toLowerCase s) ''today'' \<and> \<not> includes_str (toLowerCase s) ''tomorrow'' \<and>
    includes_str (toLowerCase s) ''yesterday''"
  then have "includes_str (toLowerCase s) ''yesterday''" by simp
  then have "\<not> isoForm (trim s) \<and> \<not> dmyForm (trim s)"
    by (rule keyword_not_date_form) (simp_all add: isDigit_def isDateSep_def isSpace_def)
  with k show "normalizeDate clk (Some s) = isoDate (yesterdayDate clk)"
    by (simp add: normalizeDate_other)
next
  assume "\<not> isoForm (trim s) \<and> \<not> dmyForm (trim s) \<and>
    \<not> includes_str (toLowerCase s) ''tomorrow'' \<and> \<not> includes_str (toLowerCase s) ''yesterday''"
  then show "normalizeDate clk (Some s) = isoDate (todayDate clk)"
    by (simp add: normalizeDate_other)
qed

theorem normalizeDate_shapes_witness:
  "normalizeDate sampleClock (Some ''2024-12-25'') = ''2024-12-25'' \<and>
   normalizeDate sampleClock (Some ''25-12-2024'') = ''2024-12-25'' \<and>
   normalizeDate sampleClock (Some ''25/12/24'') = ''2024-12-25'' \<and>
   normalizeDate sampleClock (Some ''Today'') = ''2026-11-02'' \<and>
   normalizeDate sampleClock (Some ''garbage'') = ''2026-11-02''"
proof -
  have i: "isoForm ''2024-12-25''"
    unfolding isIsoDate_iff [symmetric] by code_simp
  have a: "normalizeDate sampleClock (Some ''2024-12-25'') = ''2024-12-25''"
    using normalizeDate_shapes
      [where s = "''2024-12-25''" and clk = sampleClock and d = "[]" and m = "[]" and y = "[]"
         and ?s1.0 = "CHR ''-''" and ?s2.0 = "CHR ''-''"] i
    by blast
  have h1: "trim ''25-12-2024'' = ''25'' @ [CHR ''-''] @ ''12'' @ [CHR ''-''] @ ''2024'' \<and>
    isDateSep CHR ''-'' \<and> isDateSep CHR ''-'' \<and>
    allDigits ''25'' \<and> 1 \<le> length ''25'' \<and> length ''25'' \<le> 2 \<and>
    allDigits ''12'' \<and> 1 \<le> length ''12'' \<and> length ''12'' \<le> 2 \<and>
    allDigits ''2024'' \<and> (length ''2024'' = 2 \<or> length ''2024'' = 4)"
    by code_simp
  have b: "normalizeDate sampleClock (Some ''25-12-2024'') = ''2024-12-25''"
    using normalizeDate_shapes
      [where s = "''25-12-2024''" and clk = sampleClock and d = "''25''" and m = "''12''"
         and y = "''2024''" and ?s1.0 = "CHR ''-''" and ?s2.0 = "CHR ''-''"] h1
    by (simp add: padStart_def)
  have h2: "trim ''25/12/24'' = ''25'' @ [CHR ''/''] @ ''12'' @ [CHR ''/''] @ ''24'' \<and>
    isDateSep CHR ''/'' \<and> isDateSep CHR ''/'' \<and>
    allDigits ''25'' \<and> 1 \<le> length ''25'' \<and> length ''25'' \<le> 2 \<and>
    allDigits ''12'' \<and> 1 \<le> length ''12'' \<and> length ''12'' \<le> 2 \<and>
    allDigits ''24'' \<and> (length ''24'' = 2 \<or> length ''24'' = 4)"
    by code_simp
  have c: "normalizeDate sampleClock (Some ''25/12/24'') = ''2024-12-25''"
    using normalizeDate_shapes
      [where s = "''25/12/24''" and clk = sampleClock and d = "''25''" and m = "''12''"
         and y = "''24''" and ?s1.0 = "CHR ''/''" and ?s2.0 = "CHR ''/''"] h2
    by (simp add: padStart_def)
  have h3: "includes_str (toLowerCase ''Today'') ''today''" by code_simp
  have d: "normalizeDate sampleClock (Some ''Today'') = ''2026-11-02''"
    using normalizeDate_shapes
      [where s = "''Today''" and clk = sampleClock and d = "[]" and m = "[]" and y = "[]"
         and ?s1.0 = "CHR ''-''" and ?s2.0 = "CHR ''-''"] h3 sample_iso
    by simp
  have h4: "\<not> isoForm (trim ''garbage'') \<and> \<not> dmyForm (trim ''garbage'') \<and>
    \<not> includes_str (toLowerCase ''garbage'') ''tomorrow'' \<and>
    \<not> includes_str (toLowerCase ''garbage'') ''yesterday''"
    unfolding isIsoDate_iff [symmetric] isDmyDate_iff [symmetric] by code_simp
  have e: "normalizeDate sampleClock (Some ''garbage'') = ''2026-11-02''"
    using normalizeDate_shapes
      [where s = "''garbage''" and clk = sampleClock and d = "[]" and m = "[]" and y = "[]"
         and ?s1.0 = "CHR ''-''" and ?s2.0 = "CHR ''-''"] h4 sample_iso
    by simp
  from a b c d e show ?thesis by simp
qed

subsection \<open>Times\<close>

lemma colon_not_digit: "\<not> isDigit CHR '':''"
  by (simp add: isDigit_def)

lemma period_hd:
  assumes "toLowerCase p = ''am'' \<or> toLowerCase p = ''pm''"
  shows "p \<noteq> [] \<and> \<not> isSpace (hd p)"
proof -
  from assms obtain c cs where p: "p = c # cs" and l: "lowerChar c = CHR ''a'' \<or> lowerChar c = CHR ''p''"
    by (cases p) (auto simp: toLowerCase_def)
  have "\<not> isSpace c"
  proof
    assume s: "isSpace c"
    then have "lowerChar c = c" by (rule lowerChar_space)
    with l s show False by (auto simp: isSpace_def)
  qed
  with p show ?thesis by simp
qed

lemma matchAmPm_form:
  assumes h: "allDigits h" "1 \<le> length h" "length h \<le> 2"
    and m: "allDigits m" "length m = 2"
    and ws: "list_all isSpace ws"
    and p: "toLowerCase p = ''am'' \<or> toLowerCase p = ''pm''"
  shows "matchAmPm (h @ '':'' @ m @ ws @ p) = Some (h, m, p)"
proof -
  let ?s = "h @ '':'' @ m @ ws @ p"
  have hd: "\<And>x. x \<in> set h \<Longrightarrow> isDigit x" using h(1) by (simp add: allDigits_def list_all_iff)
  have tw: "takeWhile isDigit ?s = h"
    using hd colon_not_digit by (simp add: takeWhile_append2)
  have dw: "dropWhile isDigit ?s = '':'' @ m @ ws @ p"
    using hd colon_not_digit by (simp add: dropWhile_append2)
  have wsd: "\<And>x. x \<in> set ws \<Longrightarrow> isSpace x" using ws by (simp add: list_all_iff)
  from period_hd [OF p] have "dropWhile isSpace p = p" by (cases p) auto
  then have sp: "dropWhile isSpace (ws @ p) = p"
    using wsd by (simp add: dropWhile_append2)
  show ?thesis
    unfolding matchAmPm_def tw dw
    using h m p by (simp add: Let_def sp)
qed

lemma matchAmPm_Some:
  assumes "matchAmPm s = Some (h, m, p)"
  shows "\<exists>ws. s = h @ '':'' @ m @ ws @ p \<and>
           allDigits h \<and> 1 \<le> length h \<and> length h \<le> 2 \<and> allDigits m \<and> length m = 2 \<and>
           list_all isSpace ws \<and> (toLowerCase p = ''am'' \<or> toLowerCase p = ''pm'')"
proof -
  let ?afterH = "dropWhile isDigit s"
  let ?afterColon = "drop 1 ?afterH"
  from assms have hh: "h = takeWhile isDigit s" and lh: "1 \<le> length h" "length h \<le> 2"
    and sw: "startsWith ?afterH '':''"
    and mm: "m = take 2 ?afterColon" and lm: "length m = 2" and dm: "allDigits m"
    and pp: "p = dropWhile isSpace (drop 2 ?afterColon)"
    and lp: "toLowerCase p = ''am'' \<or> toLowerCase p = ''pm''"
    by (auto simp: matchAmPm_def Let_def split: if_splits)
  from sw obtain q where q: "?afterH = CHR '':'' # q" by (auto simp: startsWith_iff)
  then have ac: "?afterColon = q" by simp
  have mq: "m = take 2 q" using mm unfolding ac .
  have pq: "p = dropWhile isSpace (drop 2 q)" using pp unfolding ac .
  define ws where "ws = takeWhile isSpace (drop 2 q)"
  have "s = takeWhile isDigit s @ ?afterH" by simp
  also have "?afterH = '':'' @ q" using q by simp
  also have "q = take 2 q @ drop 2 q" by simp
  also have "drop 2 q = ws @ dropWhile isSpace (drop 2 q)" by (simp add: ws_def)
  finally have "s = h @ '':'' @ m @ ws @ p"
    unfolding hh mq pq by simp
  moreover have "allDigits h"
    unfolding hh allDigits_def list_all_iff by (auto dest: set_takeWhileD)
  moreover have "list_all isSpace ws"
    unfolding ws_def list_all_iff by (auto dest: set_takeWhileD)
  ultimately show ?thesis using lh lm dm lp by blast
qed

lemma matchAmPm_iff: "matchAmPm s \<noteq> None \<longleftrightarrow> ampmForm s"
proof
  assume "matchAmPm s \<noteq> None"
  then obtain h m p where "matchAmPm s = Some (h, m, p)" by auto
  from matchAmPm_Some [OF this] show "ampmForm s" unfolding ampmForm_def by blast
next
  assume "ampmForm s"
  then obtain h m ws p where "s = h @ '':'' @ m @ ws @ p"
    "allDigits h" "1 \<le> length h" "length h \<le> 2" "allDigits m" "length m = 2"
    "list_all isSpace ws" "toLowerCase p = ''am'' \<or> toLowerCase p = ''pm''"
    unfolding ampmForm_def by blast
  then show "matchAmPm s \<noteq> None" using matchAmPm_form [of h m ws p] by simp
qed

lemma lowerChar_colon: "lowerChar CHR '':'' = CHR '':''"
  by (simp add: lowerChar_def)

lemma hmm_chars:
  assumes "hmmForm t" and "c \<in> set t"
  shows "isDigit c \<or> c = CHR '':''"
  using assms unfolding hmmForm_def by (auto dest: allDigits_set)

lemma ampm_last:
  assumes "ampmForm t"
  shows "t \<noteq> [] \<and> lowerChar (last t) = CHR ''m''"
proof -
  from assms obtain h m ws p where t: "t = h @ '':'' @ m @ ws @ p"
    and p: "toLowerCase p = ''am'' \<or> toLowerCase p = ''pm''"
    unfolding ampmForm_def by blast
  from p have pn: "p \<noteq> []" by (auto simp: toLowerCase_def)
  from p have "last (toLowerCase p) = CHR ''m''" by auto
  with pn have "lowerChar (last p) = CHR ''m''" by (simp add: toLowerCase_def last_map)
  with t pn show ?thesis by simp
qed

lemma ampm_not_hmm: "ampmForm t \<Longrightarrow> \<not> hmmForm t"
proof
  assume a: "ampmForm t" and h: "hmmForm t"
  from ampm_last [OF a] have n: "t \<noteq> []" and l: "lowerChar (last t) = CHR ''m''" by simp_all
  from n have "last t \<in> set t" by simp
  from hmm_chars [OF h this] have "lowerChar (last t) = last t"
    by (auto simp: lowerChar_digit lowerChar_colon)
  with l hmm_chars [OF h \<open>last t \<in> set t\<close>] show False by (auto simp: isDigit_def)
qed

lemma time_form_lower:
  assumes "hmmForm t \<or> ampmForm t" and "c \<in> set t"
  shows "isDigit (lowerChar c) \<or> lowerChar c = CHR '':'' \<or> isSpace (lowerChar c) \<or>
         lowerChar c = CHR ''a'' \<or> lowerChar c = CHR ''m'' \<or> lowerChar c = CHR ''p''"
  using assms(1)
proof
  assume "hmmForm t"
  from hmm_chars [OF this assms(2)] show ?thesis
    by (auto simp: lowerChar_digit lowerChar_colon)
next
  assume "ampmForm t"
  then obtain h m ws p where t: "t = h @ '':'' @ m @ ws @ p"
    and h: "allDigits h" and m: "allDigits m" and ws: "list_all isSpace ws"
    and p: "toLowerCase p = ''am'' \<or> toLowerCase p = ''pm''"
    unfolding ampmForm_def by blast
  from assms(2) t consider "c \<in> set h" | "c = CHR '':''" | "c \<in> set m" | "c \<in> set ws" | "c \<in> set p"
    by auto
  then show ?thesis
  proof cases
    case 1
    with h have "isDigit c" by (rule allDigits_set)
    then show ?thesis by (simp add: lowerChar_digit)
  next
    case 2
    then show ?thesis by (simp add: lowerChar_colon)
  next
    case 3
    with m have "isDigit c" by (rule allDigits_set)
    then show ?thesis by (simp add: lowerChar_digit)
  next
    case 4
    with ws have "isSpace c" by (simp add: list_all_iff)
    then show ?thesis by (simp add: isSpace_lowerChar)
  next
    case 5
    then have "lowerChar c \<in> set (toLowerCase p)" by (simp add: toLowerCase_def)
    with p show ?thesis by auto
  qed
qed

lemma keyword_not_time_form:
  assumes i: "includes_str (toLowerCase s) (k # ks)"
    and k: "\<not> isDigit k" "k \<noteq> CHR '':''" "\<not> isSpace k"
           "k \<noteq> CHR ''a''" "k \<noteq> CHR ''m''" "k \<noteq> CHR ''p''"
    and l: "\<not> isSpace (last (k # ks))"
  shows "\<not> hmmForm (trim s) \<and> \<not> ampmForm (trim s)"
proof -
  have "includes_str (toLowerCase (trim s)) (k # ks)"
    using i k(3) l includes_lower_trim [of "k # ks" s] by simp
  then have "k \<in> set (toLowerCase (trim s))" by (rule includes_hd)
  then obtain c where c: "c \<in> set (trim s)" "lowerChar c = k" by (auto simp: toLowerCase_def)
  show ?thesis
  proof (rule ccontr)
    assume "\<not> (\<not> hmmForm (trim s) \<and> \<not> ampmForm (trim s))"
    then have "hmmForm (trim s) \<or> ampmForm (trim s)" by simp
    from time_form_lower [OF this c(1)] c(2) k show False by simp
  qed
qed

lemma normalizeTime_hmm:
  assumes t: "trim s = h @ '':'' @ m"
    and c: "allDigits h" "1 \<le> length h" "length h \<le> 2" "allDigits m" "length m = 2"
  shows "normalizeTime clk (Some s) = padStart 2 CHR ''0'' h @ '':'' @ m"
proof -
  have f: "hmmForm (trim s)" unfolding hmmForm_def using t c by blast
  from t have "s \<noteq> []" by auto
  have sp: "splitOn isColon (trim s) = [h, m]"
    using splitOn_hm [OF c(1) c(4)] t by simp
  show ?thesis
    using \<open>s \<noteq> []\<close> f
    by (simp add: normalizeTime_def falsy_def isHMM_iff sp Let_def)
qed

lemma normalizeTime_ampm:
  assumes t: "trim s = h @ '':'' @ m @ ws @ p"
    and c: "allDigits h" "1 \<le> length h" "length h \<le> 2" "allDigits m" "length m = 2"
           "list_all isSpace ws" "toLowerCase p = ''am'' \<or> toLowerCase p = ''pm''"
  shows "normalizeTime clk (Some s) =
           padStart 2 CHR ''0'' (showNat (to24 (parseDigits h) (toLowerCase p))) @ '':'' @ m"
proof -
  have f: "ampmForm (trim s)" unfolding ampmForm_def using t c by blast
  then have nh: "\<not> isHMM (trim s)" by (simp add: isHMM_iff ampm_not_hmm)
  from t have "s \<noteq> []" by auto
  have mt: "matchAmPm (trim s) = Some (h, m, p)"
    unfolding t using c by (rule matchAmPm_form)
  show ?thesis
    using \<open>s \<noteq> []\<close> nh
    by (simp add: normalizeTime_def falsy_def mt Let_def to24_def)
qed

lemma normalizeTime_other:
  assumes "\<not> hmmForm (trim s)" and "\<not> ampmForm (trim s)"
  shows "normalizeTime clk (Some s) = timeHM clk"
proof (cases "s = []")
  case True
  then show ?thesis by (simp add: normalizeTime_def falsy_def)
next
  case False
  from assms(2) have "matchAmPm (trim s) = None" using matchAmPm_iff [of "trim s"] by blast
  with False assms(1) show ?thesis
    by (simp add: normalizeTime_def falsy_def isHMM_iff Let_def)
qed

lemma to24_hours:
  assumes "1 \<le> n" "n \<le> 12"
  shows "to24 n ''am'' = (if n = 12 then 0 else n) \<and>
         to24 n ''pm'' = (if n = 12 then 12 else n + 12) \<and>
         to24 n ''am'' < 24 \<and> to24 n ''pm'' < 24"
  using assms by (simp add: to24_def)

lemma nine_five_no_form: "\<not> hmmForm (trim ''9:5'') \<and> \<not> ampmForm (trim ''9:5'')"
  unfolding isHMM_iff [symmetric] matchAmPm_iff [symmetric] by code_simp

text \<open>
  C6. For every input string, with white space around it trimmed: an input \<open>H:MM\<close> with
  one or two digits of the hour and two of the minutes gets its hour padded to two
  digits; an input \<open>H:MM\<close> followed by optional white space and "am" or "pm" in any case
  is converted to the 24-hour clock (12 am is 0, 12 pm stays 12, the other hours of the
  afternoon gain 12); an input that contains "now" or "current" gives the current time,
  and so does every input of neither shape. "9:5", with one digit of the minutes, is
  not of the shape \<open>H:MM\<close> and gives the current time.
\<close>

theorem normalizeTime_shapes:
  "(trim s = h @ '':'' @ m \<and>
    allDigits h \<and> 1 \<le> length h \<and> length h \<le> 2 \<and> allDigits m \<and> length m = 2 \<longrightarrow>
      normalizeTime clk (Some s) = padStart 2 CHR ''0'' h @ '':'' @ m) \<and>
   (trim s = h @ '':'' @ m @ ws @ p \<and>
    allDigits h \<and> 1 \<le> length h \<and> length h \<le> 2 \<and> allDigits m \<and> length m = 2 \<and>
    list_all isSpace ws \<and> (toLowerCase p = ''am'' \<or> toLowerCase p = ''pm'') \<longrightarrow>
      normalizeTime clk (Some s) =
        padStart 2 CHR ''0'' (showNat (to24 (parseDigits h) (toLowerCase p))) @ '':'' @ m) \<and>
   (1 \<le> n \<and> n \<le> 12 \<longrightarrow>
      to24 n ''am'' = (if n = 12 then 0 else n) \<and>
      to24 n ''pm'' = (if n = 12 then 12 else n + 12)) \<and>
   (includes_str (toLowerCase s) ''now'' \<or> includes_str (toLowerCase s) ''current'' \<longrightarrow>
      normalizeTime clk (Some s) = timeHM clk) \<and>
   (\<not> hmmForm (trim s) \<and> \<not> ampmForm (trim s) \<longrightarrow>
      normalizeTime clk (Some s) = timeHM clk) \<and>
   \<not> hmmForm (trim ''9:5'') \<and>
   normalizeTime clk (Some ''9:5'') = timeHM clk"
proof (intro conjI impI)
  assume "trim s = h @ '':'' @ m \<and>
    allDigits h \<and> 1 \<le> length h \<and> length h \<le> 2 \<and> allDigits m \<and> length m = 2"
  then have "trim s = h @ '':'' @ m" "allDigits h" "1 \<le> length h" "length h \<le> 2"
    "allDigits m" "length m = 2" by simp_all
  then show "normalizeTime clk (Some s) = padStart 2 CHR ''0'' h @ '':'' @ m"
    by (rule normalizeTime_hmm)
next
  assume "trim s = h @ '':'' @ m @ ws @ p \<and>
    allDigits h \<and> 1 \<le> length h \<and> length h \<le> 2 \<and> allDigits m \<and> length m = 2 \<and>
    list_all isSpace ws \<and> (toLowerCase p = ''am'' \<or> toLowerCase p = ''pm'')"
  then have "trim s = h @ '':'' @ m @ ws @ p" "allDigits h" "1 \<le> length h" "length h \<le> 2"
    "allDigits m" "length m = 2" "list_all isSpace ws"
    "toLowerCase p = ''am'' \<or> toLowerCase p = ''pm''" by simp_all
  then show "normalizeTime clk (Some s) =
        padStart 2 CHR ''0'' (showNat (to24 (parseDigits h) (toLowerCase p))) @ '':'' @ m"
    by (rule normalizeTime_ampm)
next
  assume "1 \<le> n \<and> n \<le> 12"
  then show "to24 n ''am'' = (if n = 12 then 0 else n)"
    and "to24 n ''pm'' = (if n = 12 then 12 else n + 12)"
    using to24_hours [of n] by simp_all
next
  assume "includes_str (toLowerCase s) ''now'' \<or> includes_str (toLowerCase s) ''current''"
  then have "\<not> hmmForm (trim s) \<and> \<not> ampmForm (trim s)"
  proof
    assume "includes_str (toLowerCase s) ''now''"
    then show ?thesis
      by (rule keyword_not_time_form) (simp_all add: isDigit_def isSpace_def)
  next
    assume "includes_str (toLowerCase s) ''current''"
    then show ?thesis
      by (rule keyword_not_time_form) (simp_all add: isDigit_def isSpace_def)
  qed
  then show "normalizeTime clk (Some s) = timeHM clk" by (simp add: normalizeTime_other)
next
  assume "\<not> hmmForm (trim s) \<and> \<not> ampmForm (trim s)"
  then show "normalizeTime clk (Some s) = timeHM clk" by (simp add: normalizeTime_other)
next
  show "\<not> hmmForm (trim ''9:5'')" using nine_five_no_form by simp
  show "normalizeTime clk (Some ''9:5'') = timeHM clk"
    using nine_five_no_form by (simp add: normalizeTime_other)
qed

theorem normalizeTime_shapes_witness:
  "normalizeTime sampleClock (Some ''9:30'') = ''09:30'' \<and>
   normalizeTime sampleClock (Some ''9:30 pm'') = ''21:30'' \<and>
   normalizeTime sampleClock (Some ''12:05 AM'') = ''00:05'' \<and>
   normalizeTime sampleClock (Some ''right now'') = ''09:05'' \<and>
   normalizeTime sampleClock (Some ''half past nine'') = ''09:05'' \<and>
   normalizeTime sampleClock (Some ''9:5'') = ''09:05''"
proof -
  have h1: "trim ''9:30'' = ''9'' @ '':'' @ ''30'' \<and>
    allDigits ''9'' \<and> 1 \<le> length ''9'' \<and> length ''9'' \<le> 2 \<and> allDigits ''30'' \<and> length ''30'' = 2"
    by code_simp
  have a: "normalizeTime sampleClock (Some ''9:30'') = ''09:30''"
    using normalizeTime_shapes
      [where s = "''9:30''" and clk = sampleClock and h = "''9''" and m = "''30''"
         and ws = "[]" and p = "[]" and n = 9] h1
    by (simp add: padStart_def)
  have h2: "trim ''9:30 pm'' = ''9'' @ '':'' @ ''30'' @ '' '' @ ''pm'' \<and>
    allDigits ''9'' \<and> 1 \<le> length ''9'' \<and> length ''9'' \<le> 2 \<and> allDigits ''30'' \<and> length ''30'' = 2 \<and>
    list_all isSpace '' '' \<and> (toLowerCase ''pm'' = ''am'' \<or> toLowerCase ''pm'' = ''pm'')"
    by code_simp
  have e2: "padStart 2 CHR ''0'' (showNat (to24 (parseDigits ''9'') (toLowerCase ''pm''))) = ''21''"
    by code_simp
  have b: "normalizeTime sampleClock (Some ''9:30 pm'') = ''21:30''"
    using normalizeTime_shapes
      [where s = "''9:30 pm''" and clk = sampleClock and h = "''9''" and m = "''30''"
         and ws = "'' ''" and p = "''pm''" and n = 9] h2 e2
    by simp
  have h3: "trim ''12:05 AM'' = ''12'' @ '':'' @ ''05'' @ '' '' @ ''AM'' \<and>
    allDigits ''12'' \<and> 1 \<le> length ''12'' \<and> length ''12'' \<le> 2 \<and> allDigits ''05'' \<and> length ''05'' = 2 \<and>
    list_all isSpace '' '' \<and> (toLowerCase ''AM'' = ''am'' \<or> toLowerCase ''AM'' = ''pm'')"
    by code_simp
  have e3: "padStart 2 CHR ''0'' (showNat (to24 (parseDigits ''12'') (toLowerCase ''AM''))) = ''00''"
    by code_simp
  have c: "normalizeTime sampleClock (Some ''12:05 AM'') = ''00:05''"
    using normalizeTime_shapes
      [where s = "''12:05 AM''" and clk = sampleClock and h = "''12''" and m = "''05''"
         and ws = "'' ''" and p = "''AM''" and n = 12] h3 e3
    by simp
  have h4: "includes_str (toLowerCase ''right now'') ''now''" by code_simp
  have d: "normalizeTime sampleClock (Some ''right now'') = ''09:05''"
    using normalizeTime_shapes
      [where s = "''right now''" and clk = sampleClock and h = "[]" and m = "[]"
         and ws = "[]" and p = "[]" and n = 9] h4 sample_hm
    by simp
  have h5: "\<not> hmmForm (trim ''half past nine'') \<and> \<not> ampmForm (trim ''half past nine'')"
    unfolding isHMM_iff [symmetric] matchAmPm_iff [symmetric] by code_simp
  have e: "normalizeTime sampleClock (Some ''half past nine'') = ''09:05''"
    using normalizeTime_shapes
      [where s = "''half past nine''" and clk = sampleClock and h = "[]" and m = "[]"
         and ws = "[]" and p = "[]" and n = 9] h5 sample_hm
    by simp
  have f: "normalizeTime sampleClock (Some ''9:5'') = ''09:05''"
    using normalizeTime_shapes
      [where s = "''9:5''" and clk = sampleClock and h = "[]" and m = "[]"
         and ws = "[]" and p = "[]" and n = 9] sample_hm
    by simp
  from a b c d e f show ?thesis by simp
qed

end
